theory Spec2Isabelle
  imports Complex_Main "HOL-Library.Word" "HOL-Library.Monad_Syntax"
begin

unbundle bit_operations_syntax

section \<open>Machine types\<close>

text \<open>
  The C++ sources use \<^verbatim>\<open>std::size_t\<close> (64 bits on the platforms the application
  targets), \<^verbatim>\<open>std::uint32_t\<close> and \<^verbatim>\<open>std::int32_t\<close>. They are words here; a signed
  value is read with \<open>sint\<close>. \<^verbatim>\<open>sizeof(float)\<close> is 4.
\<close>

type_synonym byte = "8 word"
type_synonym uint32 = "32 word"
type_synonym int32 = "32 word"
type_synonym size_t = "64 word"

definition sizeof_float :: size_t where
  "sizeof_float = 4"

section \<open>shader\_data\_type.hpp\<close>

datatype ShaderArrayType = f32_arr | vec2_arr | vec3_arr | vec4_arr | mat3_arr | mat4_arr

datatype U_Type = f32 | vec2 | vec3 | vec4 | mat3 | mat4

text \<open>
  \<^verbatim>\<open>shader_data_type::size\<close>. The \<^verbatim>\<open>default\<close> branch (\<^verbatim>\<open>std::terminate\<close>) is only
  reached by a value outside the enumeration, which the datatype does not have.
\<close>

function shader_data_type_size :: "U_Type \<Rightarrow> size_t" where
  "shader_data_type_size f32 = sizeof_float"
| "shader_data_type_size vec2 = sizeof_float * 2"
| "shader_data_type_size vec3 = sizeof_float * 3"
| "shader_data_type_size vec4 = sizeof_float * 4"
| "shader_data_type_size mat3 = shader_data_type_size vec4 * 3"
| "shader_data_type_size mat4 = shader_data_type_size vec4 * 4"
  by pat_completeness auto
termination
  by (relation "measure (\<lambda>t. if t = mat3 \<or> t = mat4 then 1 else 0)") auto

text \<open>
  \<^verbatim>\<open>static_cast<U_Type>(in_type)\<close> on a \<^verbatim>\<open>ShaderArrayType\<close>: both enumerations
  number their members 0 to 5 in the same order.
\<close>

fun to_U_Type :: "ShaderArrayType \<Rightarrow> U_Type" where
  "to_U_Type f32_arr = f32"
| "to_U_Type vec2_arr = vec2"
| "to_U_Type vec3_arr = vec3"
| "to_U_Type vec4_arr = vec4"
| "to_U_Type mat3_arr = mat3"
| "to_U_Type mat4_arr = mat4"

section \<open>vertex\_buffer\_layout.hpp\<close>

record VertexAttribute =
  type :: U_Type
  name :: string
  offset :: uint32
  element_count :: size_t

text \<open>The two constructors of \<^verbatim>\<open>VertexAttribute\<close>: \<^verbatim>\<open>offset{}\<close>, \<^verbatim>\<open>element_count{1}\<close>.\<close>

definition VertexAttribute_ctor :: "U_Type \<Rightarrow> string \<Rightarrow> VertexAttribute" where
  "VertexAttribute_ctor in_type in_name =
     \<lparr>type = in_type, name = in_name, offset = 0, element_count = 1\<rparr>"

definition VertexAttribute_arr_ctor ::
  "ShaderArrayType \<Rightarrow> string \<Rightarrow> size_t \<Rightarrow> VertexAttribute" where
  "VertexAttribute_arr_ctor in_type in_name n =
     \<lparr>type = to_U_Type in_type, name = in_name, offset = 0, element_count = n\<rparr>"

record VertexBufferLayout =
  m_stride :: size_t
  m_attributes :: "VertexAttribute list"

text \<open>\<^verbatim>\<open>VertexBufferLayout() = default\<close>: stride 0, no attributes.\<close>

definition VertexBufferLayout_default :: VertexBufferLayout where
  "VertexBufferLayout_default = \<lparr>m_stride = 0, m_attributes = []\<rparr>"

text \<open>
  The loop of the constructor, \<^verbatim>\<open>for (auto& attribute : m_attributes)\<close>, with the
  running \<^verbatim>\<open>m_stride\<close> as accumulator. The assignment
  \<^verbatim>\<open>attribute.offset = m_stride\<close> converts a \<^verbatim>\<open>size_t\<close> to a \<^verbatim>\<open>uint32_t\<close>, which
  keeps the low 32 bits (\<open>ucast\<close>); \<^verbatim>\<open>m_stride +=\<close> is \<^verbatim>\<open>size_t\<close> arithmetic.
\<close>

fun layout_loop :: "size_t \<Rightarrow> VertexAttribute list \<Rightarrow> VertexAttribute list \<times> size_t" where
  "layout_loop stride [] = ([], stride)"
| "layout_loop stride (attribute # rest) =
     (let attribute' = attribute\<lparr>offset := ucast stride\<rparr>;
          stride' = stride + shader_data_type_size (type attribute) * element_count attribute;
          r = layout_loop stride' rest
      in (attribute' # fst r, snd r))"

definition VertexBufferLayout_ctor :: "VertexAttribute list \<Rightarrow> VertexBufferLayout" where
  "VertexBufferLayout_ctor attributes =
     (let r = layout_loop 0 attributes in \<lparr>m_stride = snd r, m_attributes = fst r\<rparr>)"

definition stride :: "VertexBufferLayout \<Rightarrow> size_t" where
  "stride l = m_stride l"

definition stride_elements :: "VertexBufferLayout \<Rightarrow> size_t" where
  "stride_elements l = m_stride l div sizeof_float"

definition get_attributes :: "VertexBufferLayout \<Rightarrow> VertexAttribute list" where
  "get_attributes l = m_attributes l"


text \<open>
  The specification's formula for one field, over the natural numbers:
  \<open>size(kind) * element_count\<close>.
\<close>

definition field_bytes :: "VertexAttribute \<Rightarrow> nat" where
  "field_bytes a = unat (shader_data_type_size (type a)) * unat (element_count a)"

definition layout_bytes :: "VertexAttribute list \<Rightarrow> nat" where
  "layout_bytes as = sum_list (map field_bytes as)"

section \<open>The graphics API\<close>

text \<open>
  The wrappers call OpenGL (the application requests a 4.6 core context). The part of
  the context they touch is modelled after the OpenGL 4.6 core specification, chapter 6
  (buffer objects): the names handed out by \<^verbatim>\<open>glGenBuffers\<close>, the buffer objects with
  their data stores and mapped ranges, the binding of each target, and the errors
  raised. A command that raises an error has no other effect. Allocation is assumed to
  succeed (\<^verbatim>\<open>GL_OUT_OF_MEMORY\<close> is not modelled).
\<close>

datatype GLerror = GL_INVALID_VALUE | GL_INVALID_OPERATION

datatype GLtarget =
  GL_ARRAY_BUFFER | GL_COPY_READ_BUFFER | GL_COPY_WRITE_BUFFER | GL_UNIFORM_BUFFER

record buffer_object =
  data_store :: "byte list"
  mapped_range :: "(nat \<times> nat) option"

text \<open>
  A pointer handed to the API or held by a \<^verbatim>\<open>std::span\<close>: null, the address of client
  memory holding the given bytes, or an address inside the mapped data store of a buffer
  (the buffer name and the byte ofs in its store).
\<close>

datatype pointer = Null | Client "byte list" | Mapped uint32 nat

record gl_context =
  gen_names :: "uint32 list"
  buffers :: "uint32 \<Rightarrow> buffer_object option"
  binding :: "GLtarget \<Rightarrow> uint32"
  indexed_binding :: "int \<Rightarrow> uint32"
  max_uniform_buffer_bindings :: int
  uninit :: "nat \<Rightarrow> byte"
  errors :: "GLerror list"

text \<open>
  \<open>gen_names\<close>: the names returned by \<^verbatim>\<open>glGenBuffers\<close> and not deleted since.
  \<open>uninit\<close>: the contents of a data store created without initial data, which the
  API leaves undefined; every theorem holds for whatever they are.
\<close>

definition raise :: "GLerror \<Rightarrow> gl_context \<Rightarrow> gl_context" where
  "raise e g = g\<lparr>errors := errors g @ [e]\<rparr>"

text \<open>
  Reading \<open>n\<close> bytes through a pointer. Reading through a null pointer, past the end
  of the client object, or outside the mapped range is undefined behaviour (\<open>None\<close>);
  reading no byte at all is harmless.
\<close>

definition read_ptr :: "gl_context \<Rightarrow> pointer \<Rightarrow> nat \<Rightarrow> byte list option" where
  "read_ptr g p n =
     (if n = 0 then Some []
      else case p of
        Null \<Rightarrow> None
      | Client bs \<Rightarrow> if n \<le> length bs then Some (take n bs) else None
      | Mapped b off \<Rightarrow>
          (case buffers g b of
             None \<Rightarrow> None
           | Some bo \<Rightarrow>
               (case mapped_range bo of
                  None \<Rightarrow> None
                | Some (mo, ml) \<Rightarrow>
                    if mo \<le> off \<and> off + n \<le> mo + ml
                    then Some (take n (drop off (data_store bo))) else None)))"

text \<open>
  \<^verbatim>\<open>glGenBuffers(1, &id)\<close> returns a name that is not zero and not in use. Which one is
  left to the implementation; the model takes the successor of the largest name in use.
\<close>

definition fresh_name :: "uint32 list \<Rightarrow> uint32" where
  "fresh_name ns = foldr max ns 0 + 1"

definition glGenBuffers :: "gl_context \<Rightarrow> uint32 \<times> gl_context" where
  "glGenBuffers g =
     (let n = fresh_name (gen_names g) in (n, g\<lparr>gen_names := n # gen_names g\<rparr>))"

text \<open>
  \<^verbatim>\<open>glBindBuffer\<close>: zero unbinds; a name that \<^verbatim>\<open>glGenBuffers\<close> did not return is an
  error in the core profile; a name bound for the first time gets a buffer object with
  an empty data store.
\<close>

definition glBindBuffer :: "gl_context \<Rightarrow> GLtarget \<Rightarrow> uint32 \<Rightarrow> gl_context" where
  "glBindBuffer g target buffer =
     (if buffer = 0 then g\<lparr>binding := (binding g)(target := 0)\<rparr>
      else if buffer \<notin> set (gen_names g) then raise GL_INVALID_OPERATION g
      else g\<lparr>buffers :=
               (case buffers g buffer of
                  None \<Rightarrow> (buffers g)(buffer \<mapsto> \<lparr>data_store = [], mapped_range = None\<rparr>)
                | Some bo \<Rightarrow> buffers g),
             binding := (binding g)(target := buffer)\<rparr>)"


text \<open>
  \<^verbatim>\<open>glBufferData(target, size, data, usage)\<close> replaces the data store of the bound
  buffer (unmapping it) by one of \<open>size\<close> bytes, copied from \<open>data\<close> unless that is
  null. The usage hint has no effect on the contents.
\<close>

definition glBufferData ::
  "gl_context \<Rightarrow> GLtarget \<Rightarrow> int \<Rightarrow> pointer \<Rightarrow> gl_context option" where
  "glBufferData g target sz data =
     (if sz < 0 then Some (raise GL_INVALID_VALUE g)
      else if binding g target = 0 \<or> buffers g (binding g target) = None
      then Some (raise GL_INVALID_OPERATION g)
      else case data of
        Null \<Rightarrow>
          Some (g\<lparr>buffers := (buffers g)(binding g target \<mapsto>
                  \<lparr>data_store = map (uninit g) [0..<nat sz], mapped_range = None\<rparr>)\<rparr>)
      | _ \<Rightarrow>
          (case read_ptr g data (nat sz) of
             None \<Rightarrow> None
           | Some bs \<Rightarrow>
               Some (g\<lparr>buffers := (buffers g)(binding g target \<mapsto>
                       \<lparr>data_store = bs, mapped_range = None\<rparr>)\<rparr>)))"

text \<open>
  Whether the bytes \<open>[off, off + n)\<close> of a store meet its mapped range.
\<close>

definition range_mapped :: "buffer_object \<Rightarrow> nat \<Rightarrow> nat \<Rightarrow> bool" where
  "range_mapped bo off n =
     (case mapped_range bo of
        None \<Rightarrow> False
      | Some (mo, ml) \<Rightarrow> 0 < n \<and> off < mo + ml \<and> mo < off + n)"

text \<open>
  \<^verbatim>\<open>glBufferSubData(target, offset, size, data)\<close>: \<^verbatim>\<open>GL_INVALID_OPERATION\<close> when zero
  is bound or when any part of the range is mapped, \<^verbatim>\<open>GL_INVALID_VALUE\<close> when the
  range does not lie inside the store; otherwise the bytes are copied from \<open>data\<close>.
\<close>

definition glBufferSubData ::
  "gl_context \<Rightarrow> GLtarget \<Rightarrow> int \<Rightarrow> int \<Rightarrow> pointer \<Rightarrow> gl_context option" where
  "glBufferSubData g target ofs sz data =
     (case buffers g (binding g target) of
        None \<Rightarrow> Some (raise GL_INVALID_OPERATION g)
      | Some bo \<Rightarrow>
          if binding g target = 0 then Some (raise GL_INVALID_OPERATION g)
          else if ofs < 0 \<or> sz < 0 \<or> int (length (data_store bo)) < ofs + sz
          then Some (raise GL_INVALID_VALUE g)
          else if range_mapped bo (nat ofs) (nat sz)
          then Some (raise GL_INVALID_OPERATION g)
          else case read_ptr g data (nat sz) of
            None \<Rightarrow> None
          | Some bs \<Rightarrow>
              Some (g\<lparr>buffers := (buffers g)(binding g target \<mapsto>
                      bo\<lparr>data_store := take (nat ofs) (data_store bo) @ bs @
                                        drop (nat ofs + nat sz) (data_store bo)\<rparr>)\<rparr>))"

text \<open>
  \<^verbatim>\<open>glCopyBufferSubData(readtarget, writetarget, readoffset, writeoffset, size)\<close>.
\<close>

definition glCopyBufferSubData ::
  "gl_context \<Rightarrow> GLtarget \<Rightarrow> GLtarget \<Rightarrow> int \<Rightarrow> int \<Rightarrow> int \<Rightarrow> gl_context" where
  "glCopyBufferSubData g readtarget writetarget readoffset writeoffset sz =
     (case (buffers g (binding g readtarget), buffers g (binding g writetarget)) of
        (Some rb, Some wb) \<Rightarrow>
          if binding g readtarget = 0 \<or> binding g writetarget = 0
          then raise GL_INVALID_OPERATION g
          else if readoffset < 0 \<or> writeoffset < 0 \<or> sz < 0 \<or>
                  int (length (data_store rb)) < readoffset + sz \<or>
                  int (length (data_store wb)) < writeoffset + sz
          then raise GL_INVALID_VALUE g
          else if binding g readtarget = binding g writetarget \<and> 0 < sz \<and>
                  readoffset < writeoffset + sz \<and> writeoffset < readoffset + sz
          then raise GL_INVALID_VALUE g
          else if mapped_range rb \<noteq> None \<or> mapped_range wb \<noteq> None
          then raise GL_INVALID_OPERATION g
          else g\<lparr>buffers := (buffers g)(binding g writetarget \<mapsto>
                  wb\<lparr>data_store :=
                        take (nat writeoffset) (data_store wb) @
                        take (nat sz) (drop (nat readoffset) (data_store rb)) @
                        drop (nat writeoffset + nat sz) (data_store wb)\<rparr>)\<rparr>
      | _ \<Rightarrow> raise GL_INVALID_OPERATION g)"

text \<open>
  \<^verbatim>\<open>glDeleteBuffers(1, &id)\<close>: zero and names not in use are ignored; otherwise the
  buffer object goes (with its mapping), the name becomes unused, and every binding of
  it in the context reverts to zero.
\<close>

definition glDeleteBuffers :: "gl_context \<Rightarrow> uint32 \<Rightarrow> gl_context" where
  "glDeleteBuffers g buffer =
     (if buffer = 0 \<or> buffer \<notin> set (gen_names g) then g
      else g\<lparr>gen_names := removeAll buffer (gen_names g),
             buffers := (buffers g)(buffer := None),
             binding := (\<lambda>t. if binding g t = buffer then 0 else binding g t),
             indexed_binding :=
               (\<lambda>i. if indexed_binding g i = buffer then 0 else indexed_binding g i)\<rparr>)"

text \<open>
  \<^verbatim>\<open>glMapBufferRange(target, offset, length, access)\<close> with the access bits the program
  passes, \<^verbatim>\<open>GL_MAP_WRITE_BIT | GL_MAP_READ_BIT\<close>. It returns a null pointer when it
  raises an error: zero bound, range outside the store, zero length, or a buffer that is
  mapped already.
\<close>

definition glMapBufferRange ::
  "gl_context \<Rightarrow> GLtarget \<Rightarrow> int \<Rightarrow> int \<Rightarrow> pointer \<times> gl_context" where
  "glMapBufferRange g target ofs len =
     (case buffers g (binding g target) of
        None \<Rightarrow> (Null, raise GL_INVALID_OPERATION g)
      | Some bo \<Rightarrow>
          if binding g target = 0 then (Null, raise GL_INVALID_OPERATION g)
          else if ofs < 0 \<or> len < 0 \<or> int (length (data_store bo)) < ofs + len
          then (Null, raise GL_INVALID_VALUE g)
          else if len = 0 \<or> mapped_range bo \<noteq> None
          then (Null, raise GL_INVALID_OPERATION g)
          else (Mapped (binding g target) (nat ofs),
                g\<lparr>buffers := (buffers g)(binding g target \<mapsto>
                     bo\<lparr>mapped_range := Some (nat ofs, nat len)\<rparr>)\<rparr>))"

definition glUnmapBuffer :: "gl_context \<Rightarrow> GLtarget \<Rightarrow> gl_context" where
  "glUnmapBuffer g target =
     (case buffers g (binding g target) of
        None \<Rightarrow> raise GL_INVALID_OPERATION g
      | Some bo \<Rightarrow>
          if binding g target = 0 \<or> mapped_range bo = None
          then raise GL_INVALID_OPERATION g
          else g\<lparr>buffers := (buffers g)(binding g target \<mapsto> bo\<lparr>mapped_range := None\<rparr>)\<rparr>)"

section \<open>Double precision, as far as \<^verbatim>\<open>calc_capacity\<close> uses it\<close>

text \<open>
  \<^verbatim>\<open>calc_capacity\<close> evaluates
  \<^verbatim>\<open>static_cast<size_t>(static_cast<double>(capacity) * std::numbers::phi)\<close>
  in IEEE 754 binary64: 53 significant bits, round to nearest, ties to even. All values
  are positive and far from the exponent limits, so rounding only depends on the
  significant bits: \<open>round53 p\<close> is the natural number with at most 53 significant bits
  nearest to \<open>p\<close>, and the double nearest to \<open>p / 2^k\<close> is \<open>round53 p / 2^k\<close>.
\<close>

fun bit_length :: "nat \<Rightarrow> nat" where
  "bit_length n = (if n = 0 then 0 else Suc (bit_length (n div 2)))"

declare bit_length.simps [simp del]

definition round53 :: "nat \<Rightarrow> nat" where
  "round53 p =
     (if p < 2 ^ 53 then p
      else let e = bit_length p - 53;
               q = p div 2 ^ e;
               r = p mod 2 ^ e;
               h = 2 ^ (e - 1)
           in (if h < r \<or> (r = h \<and> odd q) then q + 1 else q) * 2 ^ e)"

text \<open>
  \<^verbatim>\<open>std::numbers::phi\<close> is the double nearest to the golden ratio,
  \<^verbatim>\<open>0x1.9e3779b97f4a8p+0\<close>: the significand below over \<open>2^52\<close>.
\<close>

definition phi_significand :: nat where
  "phi_significand = 7286977268806824"

text \<open>
  \<^verbatim>\<open>static_cast<double>(capacity)\<close> is the integer \<open>round53 (unat c)\<close>; its
  product with \<^verbatim>\<open>phi\<close> is \<open>round53 (d * phi_significand) / 2^52\<close>; the conversion to
  \<^verbatim>\<open>size_t\<close> truncates, and is undefined when the value does not fit.
\<close>

definition mul_phi_to_size_t :: "size_t \<Rightarrow> size_t option" where
  "mul_phi_to_size_t c =
     (let d = round53 (unat c);
          t = round53 (d * phi_significand) div 2 ^ 52
      in if t < 2 ^ 64 then Some (word_of_nat t) else None)"

text \<open>The specification's growth step: \<open>floor (c * phi)\<close> for the golden ratio.\<close>

definition golden_ratio :: real where
  "golden_ratio = (1 + sqrt 5) / 2"

definition spec_growth :: "nat \<Rightarrow> nat" where
  "spec_growth c = nat \<lfloor>real c * golden_ratio\<rfloor>"

section \<open>vertex\_buffer.hpp\<close>

text \<open>
  A \<^verbatim>\<open>std::span<const float>\<close>: the pointer \<^verbatim>\<open>data()\<close> and the number of floats
  \<^verbatim>\<open>size()\<close>.
\<close>

record span =
  span_data :: pointer
  span_size :: nat

definition size_bytes :: "span \<Rightarrow> size_t" where
  "size_bytes sp = word_of_nat (span_size sp) * sizeof_float"

text \<open>The span over a client array with the given bytes, four for each float.\<close>

definition client_span :: "byte list \<Rightarrow> span" where
  "client_span bs = \<lparr>span_data = Client bs, span_size = length bs div 4\<rparr>"

definition empty_span :: span where
  "empty_span = \<lparr>span_data = Null, span_size = 0\<rparr>"

text \<open>
  The members \<^verbatim>\<open>id_\<close>, \<^verbatim>\<open>layout_\<close>, \<^verbatim>\<open>capacity_\<close> and \<^verbatim>\<open>count_\<close> are \<open>m_id\<close>,
  \<open>m_layout\<close>, \<open>m_capacity\<close> and \<open>m_count\<close> here.
\<close>

record VertexBuffer =
  m_id :: uint32
  m_layout :: VertexBufferLayout

text \<open>
  \<^verbatim>\<open>VertexBuffer(vertices, layout, hint)\<close>, to which the other constructors delegate.
\<close>

definition VertexBuffer_ctor ::
  "gl_context \<Rightarrow> span \<Rightarrow> VertexBufferLayout \<Rightarrow> (gl_context \<times> VertexBuffer) option" where
  "VertexBuffer_ctor g vertices layout =
     (let (new_id, g1) = glGenBuffers g;
          g2 = glBindBuffer g1 GL_ARRAY_BUFFER new_id
      in case glBufferData g2 GL_ARRAY_BUFFER (sint (size_bytes vertices)) (span_data vertices) of
           None \<Rightarrow> None
         | Some g3 \<Rightarrow> Some (g3, \<lparr>m_id = new_id, m_layout = layout\<rparr>))"

text \<open>\<^verbatim>\<open>~VertexBuffer()\<close>.\<close>

definition VertexBuffer_dtor :: "gl_context \<Rightarrow> 'a VertexBuffer_scheme \<Rightarrow> gl_context" where
  "VertexBuffer_dtor g this = (if m_id this \<noteq> 0 then glDeleteBuffers g (m_id this) else g)"

definition bind :: "gl_context \<Rightarrow> 'a VertexBuffer_scheme \<Rightarrow> gl_context" where
  "bind g this = glBindBuffer g GL_ARRAY_BUFFER (m_id this)"

definition unbind :: "gl_context \<Rightarrow> gl_context" where
  "unbind g = glBindBuffer g GL_ARRAY_BUFFER 0"

section \<open>vertex\_buffer\_inst.hpp\<close>

record VertexBufferInst = VertexBuffer +
  m_capacity :: size_t
  m_count :: int32

definition INT32_MAX :: int32 where
  "INT32_MAX = 0x7FFFFFFF"

definition instance_count :: "VertexBufferInst \<Rightarrow> int32" where
  "instance_count this = m_count this"

definition instance_size :: "VertexBufferInst \<Rightarrow> size_t" where
  "instance_size this = stride (m_layout this)"

definition capacity :: "VertexBufferInst \<Rightarrow> size_t" where
  "capacity this = m_capacity this"

text \<open>
  \<^verbatim>\<open>VertexBufferInst(instance_data, layout)\<close>: the base constructor with
  \<^verbatim>\<open>DYNAMIC_DRAW\<close>, then \<^verbatim>\<open>capacity_{instance_data.size()}\<close>; \<^verbatim>\<open>count_\<close> keeps its
  default initialiser, zero.
\<close>

definition VertexBufferInst_ctor ::
  "gl_context \<Rightarrow> span \<Rightarrow> VertexBufferLayout \<Rightarrow> (gl_context \<times> VertexBufferInst) option" where
  "VertexBufferInst_ctor g instance_data layout =
     (case VertexBuffer_ctor g instance_data layout of
        None \<Rightarrow> None
      | Some (g', base) \<Rightarrow>
          Some (g', \<lparr>m_id = m_id base, m_layout = m_layout base,
                     m_capacity = word_of_nat (span_size instance_data), m_count = 0\<rparr>))"

definition calc_capacity :: "VertexBufferInst \<Rightarrow> size_t \<Rightarrow> size_t option" where
  "calc_capacity this capacity' =
     (if capacity' = 0 then Some (instance_size this)
      else if capacity' = instance_size this then Some (instance_size this * 32)
      else mul_phi_to_size_t capacity')"

text \<open>
  \<^verbatim>\<open>count_ * layout_.stride()\<close> converts the \<^verbatim>\<open>int32_t\<close> to \<^verbatim>\<open>size_t\<close> (\<open>scast\<close>) and
  multiplies there; \<^verbatim>\<open>static_cast<ptrdiff_t>\<close> reads the result as a signed number.
\<close>

definition resize_buffer ::
  "gl_context \<Rightarrow> VertexBufferInst \<Rightarrow> size_t \<Rightarrow> size_t \<Rightarrow> gl_context option" where
  "resize_buffer g this old_capacity new_capacity =
     (let (new_id, g1) = glGenBuffers g;
          g2 = glBindBuffer g1 GL_COPY_WRITE_BUFFER new_id;
          live = sint (scast (m_count this) * stride (m_layout this) :: size_t)
      in do {
        g3 \<leftarrow> glBufferData g2 GL_COPY_WRITE_BUFFER (sint old_capacity) Null;
        let g4 = glBindBuffer g3 GL_COPY_READ_BUFFER (m_id this);
        let g5 = glCopyBufferSubData g4 GL_COPY_READ_BUFFER GL_COPY_WRITE_BUFFER 0 0 live;
        let g6 = glBindBuffer g5 GL_COPY_WRITE_BUFFER (m_id this);
        g7 \<leftarrow> glBufferData g6 GL_COPY_WRITE_BUFFER (sint new_capacity) Null;
        let g8 = glBindBuffer g7 GL_COPY_READ_BUFFER new_id;
        let g9 = glCopyBufferSubData g8 GL_COPY_READ_BUFFER GL_COPY_WRITE_BUFFER 0 0 live;
        let g10 = glDeleteBuffers g9 new_id;
        Some (glBindBuffer g10 GL_ARRAY_BUFFER (m_id this))
      })"

text \<open>
  \<^verbatim>\<open>update_instance\<close>. The assertion is compiled only with \<^verbatim>\<open>RGL_DEBUG\<close> and names
  members the class does not have; the release build is modelled.
\<close>

definition update_instance ::
  "gl_context \<Rightarrow> VertexBufferInst \<Rightarrow> int32 \<Rightarrow> span \<Rightarrow> gl_context option" where
  "update_instance g this index instance_data =
     (let g1 = glBindBuffer g GL_ARRAY_BUFFER (m_id this)
      in glBufferSubData g1 GL_ARRAY_BUFFER
           (sint (scast index * size_bytes instance_data :: size_t))
           (sint (size_bytes instance_data))
           (span_data instance_data))"

text \<open>
  \<^verbatim>\<open>add_instance\<close>. \<^verbatim>\<open>count_ + 1\<close> is \<^verbatim>\<open>int\<close> arithmetic: at \<^verbatim>\<open>INT32_MAX\<close> it
  overflows, which is undefined behaviour.
\<close>

definition add_instance ::
  "gl_context \<Rightarrow> VertexBufferInst \<Rightarrow> span \<Rightarrow> (gl_context \<times> VertexBufferInst) option" where
  "add_instance g this instance_data =
     (if m_count this = INT32_MAX then None
      else do {
        (g1, this1) \<leftarrow>
          (if m_capacity this < scast (m_count this + 1) * stride (m_layout this)
           then do {
             new_capacity \<leftarrow> calc_capacity this (m_capacity this);
             g' \<leftarrow> resize_buffer g this (m_capacity this) new_capacity;
             Some (g', this\<lparr>m_capacity := new_capacity\<rparr>)
           }
           else Some (g, this));
        g2 \<leftarrow> update_instance g1 this1 (m_count this1) instance_data;
        Some (g2, this1\<lparr>m_count := m_count this1 + 1\<rparr>)
      })"

text \<open>
  \<^verbatim>\<open>delete_instance\<close>. The mapped length is \<^verbatim>\<open>static_cast<uint32_t>(layout_.stride())\<close>;
  the span over the mapped pointer has \<^verbatim>\<open>stride_elements()\<close> floats. The function does
  not bind the buffer before it maps \<^verbatim>\<open>GL_ARRAY_BUFFER\<close>.
\<close>

definition delete_instance ::
  "gl_context \<Rightarrow> VertexBufferInst \<Rightarrow> int32 \<Rightarrow>
     (gl_context \<times> VertexBufferInst \<times> int32) option" where
  "delete_instance g this index =
     (if sint (m_count this) \<le> sint index \<or> sint index < 0 then Some (g, this, m_count this)
      else
        let (last_instance_ptr, g1) =
              glMapBufferRange g GL_ARRAY_BUFFER
                (sint (scast (m_count this - 1) * stride (m_layout this) :: size_t))
                (uint (ucast (stride (m_layout this)) :: uint32));
            last_instance =
              \<lparr>span_data = last_instance_ptr,
               span_size = unat (stride_elements (m_layout this))\<rparr>
        in do {
          g2 \<leftarrow> update_instance g1 this index last_instance;
          let g3 = glUnmapBuffer g2 GL_ARRAY_BUFFER;
          Some (g3, this\<lparr>m_count := m_count this - 1\<rparr>, index)
        })"

text \<open>
  The bytes of slot \<open>i\<close> of a data store whose records have \<open>rs\<close> bytes.
\<close>

definition slot :: "nat \<Rightarrow> byte list \<Rightarrow> nat \<Rightarrow> byte list" where
  "slot rs bytes i = take rs (drop (i * rs) bytes)"

text \<open>
  The data model of the instance store: it owns an existing, unmapped buffer object
  whose data store holds at least \<open>count\<close> records of \<open>instance_size\<close> bytes (and is
  smaller than \<open>2^63\<close> bytes, as every size the API accepts).
\<close>

definition store_ok :: "gl_context \<Rightarrow> VertexBufferInst \<Rightarrow> bool" where
  "store_ok g this =
     (m_id this \<noteq> 0 \<and> m_id this \<in> set (gen_names g) \<and>
      (case buffers g (m_id this) of
         None \<Rightarrow> False
       | Some bo \<Rightarrow>
           mapped_range bo = None \<and>
           0 \<le> sint (m_count this) \<and>
           nat (sint (m_count this)) * unat (instance_size this) \<le> length (data_store bo) \<and>
           length (data_store bo) < 2 ^ 63))"

text \<open>The data store of the buffer an object owns (empty when there is none).\<close>

definition store_bytes :: "gl_context \<Rightarrow> 'a VertexBuffer_scheme \<Rightarrow> byte list" where
  "store_bytes g this = (case buffers g (m_id this) of None \<Rightarrow> [] | Some bo \<Rightarrow> data_store bo)"

subsection \<open>Moving and destroying\<close>

text \<open>
  The implicit move constructor of \<^verbatim>\<open>VertexBufferLayout\<close> copies the stride and moves
  the vector, which leaves the source vector empty. It returns the new layout and the
  source afterwards.
\<close>

definition VertexBufferLayout_move :: "VertexBufferLayout \<Rightarrow> VertexBufferLayout \<times> VertexBufferLayout" where
  "VertexBufferLayout_move other = (other, other\<lparr>m_attributes := []\<rparr>)"

text \<open>
  \<^verbatim>\<open>VertexBufferInst(VertexBufferInst&&) = default\<close>: the move constructor of the base,
  then \<^verbatim>\<open>capacity_\<close> and \<^verbatim>\<open>count_\<close> are copied. It returns the new object and the
  source afterwards.
\<close>

definition VertexBufferInst_move_ctor :: "VertexBufferInst \<Rightarrow> VertexBufferInst \<times> VertexBufferInst" where
  "VertexBufferInst_move_ctor other =
     (let (l, l') = VertexBufferLayout_move (m_layout other)
      in (\<lparr>m_id = m_id other, m_layout = l,
            m_capacity = m_capacity other, m_count = m_count other\<rparr>,
          other\<lparr>m_id := 0, m_layout := l'\<rparr>))"

text \<open>
  Move assignment compares addresses (\<^verbatim>\<open>this != &other\<close>), so the objects live in a
  heap, addressed by numbers. \<^verbatim>\<open>VertexBuffer::operator=(VertexBuffer&&)\<close> on the base,
  then the defaulted assignment of the derived class copies \<^verbatim>\<open>capacity_\<close> and
  \<^verbatim>\<open>count_\<close>.
\<close>

type_synonym addr = nat
type_synonym heap = "addr \<Rightarrow> VertexBufferInst"

definition VertexBuffer_move_assign :: "gl_context \<Rightarrow> heap \<Rightarrow> addr \<Rightarrow> addr \<Rightarrow> gl_context \<times> heap" where
  "VertexBuffer_move_assign g h this other =
     (if this \<noteq> other then
        let g' = glDeleteBuffers g (m_id (h this));
            h1 = h(this := (h this)\<lparr>m_id := m_id (h other), m_layout := m_layout (h other)\<rparr>);
            h2 = h1(other := (h1 other)\<lparr>m_id := 0\<rparr>)
        in (g', h2)
      else (g, h))"

definition VertexBufferInst_move_assign :: "gl_context \<Rightarrow> heap \<Rightarrow> addr \<Rightarrow> addr \<Rightarrow> gl_context \<times> heap" where
  "VertexBufferInst_move_assign g h this other =
     (let (g', h') = VertexBuffer_move_assign g h this other
      in (g', h'(this := (h' this)\<lparr>m_capacity := m_capacity (h' other),
                                    m_count := m_count (h' other)\<rparr>)))"

section \<open>uniform\_buffer.hpp\<close>









text \<open>
  The specification's words for \<open>create\<close>: the buffer is sized to hold the initial
  data if there is any, and to one stride otherwise.
\<close>

definition spec_create_alloc :: "span \<Rightarrow> VertexBufferLayout \<Rightarrow> nat" where
  "spec_create_alloc initial_data layout =
     (if span_size initial_data = 0 then unat (stride layout)
      else unat (size_bytes initial_data))"


section \<open>Sequences of appends\<close>

text \<open>A client that calls \<^verbatim>\<open>add_instance\<close> once for each record of a list, in order.\<close>

fun add_instances ::
  "gl_context \<Rightarrow> VertexBufferInst \<Rightarrow> byte list list \<Rightarrow> (gl_context \<times> VertexBufferInst) option" where
  "add_instances g this [] = Some (g, this)"
| "add_instances g this (r # rs) =
     (case add_instance g this (client_span r) of
        None \<Rightarrow> None
      | Some (g', this') \<Rightarrow> add_instances g' this' rs)"

text \<open>
  The invariant of the specification, \<open>capacity() \<ge> instance_count() * instance_size()\<close>,
  read over the integers.
\<close>

definition capacity_covers :: "VertexBufferInst \<Rightarrow> bool" where
  "capacity_covers this \<longleftrightarrow>
     sint (instance_count this) * uint (instance_size this) \<le> uint (capacity this)"

text \<open>
  The capacities that the growth policy reaches from an empty store: zero while the
  store is empty, one record for the first record, and afterwards at least 32 records,
  at least the live records, and at most twice the live records plus 32 records.
\<close>

definition growth_inv :: "VertexBufferInst \<Rightarrow> bool" where
  "growth_inv this \<longleftrightarrow>
     (let s = unat (instance_size this);
          c = nat (sint (m_count this));
          cap = unat (m_capacity this)
      in 0 \<le> sint (m_count this) \<and>
         (cap = 0 \<and> c = 0 \<or> cap = s \<and> c \<le> 1 \<or>
          32 * s \<le> cap \<and> c * s \<le> cap \<and> cap \<le> 2 * c * s + 32 * s))"
section \<open>Concrete inputs\<close>

text \<open>A context in which nothing has been created yet.\<close>

definition gl_init :: gl_context where
  "gl_init =
     \<lparr>gen_names = [], buffers = (\<lambda>_. None), binding = (\<lambda>_. 0),
      indexed_binding = (\<lambda>_. 0), max_uniform_buffer_bindings = 36,
      uninit = (\<lambda>_. 0), errors = []\<rparr>"

text \<open>The layout of the specification's example, and a layout of one float.\<close>

definition layout_pos_uv :: VertexBufferLayout where
  "layout_pos_uv =
     VertexBufferLayout_ctor [VertexAttribute_ctor vec3 ''pos'', VertexAttribute_ctor vec2 ''uv'']"

definition layout_f32 :: VertexBufferLayout where
  "layout_f32 = VertexBufferLayout_ctor [VertexAttribute_ctor f32 ''x'']"

text \<open>A record of five floats for \<open>layout_pos_uv\<close>.\<close>

definition record20 :: "byte list" where
  "record20 = [1, 2, 3, 4, 5, 6, 7, 8, 9, 10, 11, 12, 13, 14, 15, 16, 17, 18, 19, 20]"

text \<open>Three records of one float, and the data of another buffer.\<close>

definition r0 :: "byte list" where "r0 = [1, 2, 3, 4]"
definition r1 :: "byte list" where "r1 = [5, 6, 7, 8]"
definition r2 :: "byte list" where "r2 = [9, 10, 11, 12]"

definition other_data :: "byte list" where
  "other_data = [21, 22, 23, 24, 25, 26, 27, 28, 29, 30, 31, 32]"

text \<open>
  The context and the store after a client has created the store without initial data
  for records of one float and has added \<open>r0\<close>, \<open>r1\<close> and \<open>r2\<close> (see
  \<open>three_records\<close> below): buffer 1 has grown to 128 bytes, of which the first 12
  hold the records, and is bound to \<^verbatim>\<open>GL_ARRAY_BUFFER\<close>.
\<close>

definition gl_three :: gl_context where
  "gl_three =
     gl_init\<lparr>gen_names := [1],
             buffers := (\<lambda>_. None)
               (1 \<mapsto> \<lparr>data_store = r0 @ r1 @ r2 @ replicate 116 0, mapped_range = None\<rparr>),
             binding := (\<lambda>_. 0)(GL_ARRAY_BUFFER := 1, GL_COPY_WRITE_BUFFER := 1)\<rparr>"

definition store_three :: VertexBufferInst where
  "store_three = \<lparr>m_id = 1, m_layout = layout_f32, m_capacity = 128, m_count = 3\<rparr>"

text \<open>
  The same after the client has created a second buffer, named 2, with \<open>other_data\<close>:
  its constructor leaves it bound to \<^verbatim>\<open>GL_ARRAY_BUFFER\<close>.
\<close>

definition gl_three_other :: gl_context where
  "gl_three_other =
     gl_init\<lparr>gen_names := [2, 1],
             buffers := (\<lambda>_. None)
               (1 \<mapsto> \<lparr>data_store = r0 @ r1 @ r2 @ replicate 116 0, mapped_range = None\<rparr>,
                2 \<mapsto> \<lparr>data_store = other_data, mapped_range = None\<rparr>),
             binding := (\<lambda>_. 0)(GL_ARRAY_BUFFER := 2, GL_COPY_WRITE_BUFFER := 1)\<rparr>"

definition store_other :: VertexBufferInst where
  "store_other = \<lparr>m_id = 2, m_layout = layout_f32, m_capacity = 3, m_count = 0\<rparr>"

text \<open>What a caller can observe of a store and of its buffer.\<close>

record observation =
  obs_capacity :: size_t
  obs_count :: int32
  obs_stride :: size_t
  obs_bytes :: "byte list"

definition observe :: "gl_context \<times> VertexBufferInst \<Rightarrow> observation" where
  "observe r =
     \<lparr>obs_capacity = capacity (snd r), obs_count = instance_count (snd r),
      obs_stride = instance_size (snd r), obs_bytes = store_bytes (fst r) (snd r)\<rparr>"

text \<open>
  A context with one buffer, named 1, that is empty and bound to \<^verbatim>\<open>GL_ARRAY_BUFFER\<close>,
  and the store of one-float records that owns it: what the constructor gives for no
  initial data.
\<close>

definition gl_one :: gl_context where
  "gl_one =
     gl_init\<lparr>gen_names := [1],
             buffers := (\<lambda>_. None)(1 \<mapsto> \<lparr>data_store = [], mapped_range = None\<rparr>),
             binding := (\<lambda>_. 0)(GL_ARRAY_BUFFER := 1)\<rparr>"

definition store_empty :: VertexBufferInst where
  "store_empty = \<lparr>m_id = 1, m_layout = layout_f32, m_capacity = 0, m_count = 0\<rparr>"

text \<open>
  What the constructor gives in a fresh context for the initial data \<open>record20\<close> and
  the layout of 20 bytes per record.
\<close>

definition gl_created :: gl_context where
  "gl_created =
     gl_init\<lparr>gen_names := [1],
             buffers := (\<lambda>_. None)(1 \<mapsto> \<lparr>data_store = record20, mapped_range = None\<rparr>),
             binding := (\<lambda>_. 0)(GL_ARRAY_BUFFER := 1)\<rparr>"

definition store_created :: VertexBufferInst where
  "store_created = \<lparr>m_id = 1, m_layout = layout_pos_uv, m_capacity = 5, m_count = 0\<rparr>"

text \<open>
  A client of the store: create it without initial data for records of one float, then
  add \<open>r0\<close>, \<open>r1\<close> and \<open>r2\<close>.
\<close>

definition three_records :: "(gl_context \<times> VertexBufferInst) option" where
  "three_records =
     do {
       (g, a) \<leftarrow> VertexBufferInst_ctor gl_init empty_span layout_f32;
       (g, a) \<leftarrow> add_instance g a (client_span r0);
       (g, a) \<leftarrow> add_instance g a (client_span r1);
       add_instance g a (client_span r2)
     }"

text \<open>What a caller can observe after \<open>delete_instance\<close>, with the value it returns.\<close>

definition observe_deleted ::
  "gl_context \<times> VertexBufferInst \<times> int32 \<Rightarrow> observation \<times> int32 \<times> GLerror list" where
  "observe_deleted r = (observe (fst r, fst (snd r)), snd (snd r), errors (fst r))"

text \<open>
  The client goes on: it deletes record \<open>index\<close> at once; or it first creates a
  second buffer with \<open>other_data\<close>; or it first calls \<^verbatim>\<open>VertexBuffer::unbind()\<close>.
\<close>

definition delete_at_once :: "int32 \<Rightarrow> (gl_context \<times> VertexBufferInst \<times> int32) option" where
  "delete_at_once index =
     do {
       (g, a) \<leftarrow> three_records;
       delete_instance g a index
     }"

definition delete_after_other_buffer ::
  "int32 \<Rightarrow> (gl_context \<times> VertexBufferInst \<times> int32) option" where
  "delete_after_other_buffer index =
     do {
       (g, a) \<leftarrow> three_records;
       (g, b) \<leftarrow> VertexBufferInst_ctor g (client_span other_data) layout_f32;
       delete_instance g a index
     }"

definition delete_after_unbind ::
  "int32 \<Rightarrow> (gl_context \<times> VertexBufferInst \<times> int32) option" where
  "delete_after_unbind index =
     do {
       (g, a) \<leftarrow> three_records;
       delete_instance (unbind g) a index
     }"

text \<open>
  Another client: it creates the store with the record \<open>record20\<close> as initial data,
  adds \<open>record20\<close> once more, and then updates record 0 with the given bytes. What
  it can observe afterwards, with the errors the context has recorded.
\<close>

definition record20_alt :: "byte list" where
  "record20_alt = [101, 102, 103, 104, 105, 106, 107, 108, 109, 110,
                   111, 112, 113, 114, 115, 116, 117, 118, 119, 120]"

definition update_after_create_with_data ::
  "int32 \<Rightarrow> byte list \<Rightarrow> (observation \<times> GLerror list) option" where
  "update_after_create_with_data index bytes =
     do {
       (g, a) \<leftarrow> VertexBufferInst_ctor gl_init (client_span record20) layout_pos_uv;
       (g, a) \<leftarrow> add_instance g a (client_span record20);
       g \<leftarrow> update_instance g a index (client_span bytes);
       Some (observe (g, a), errors g)
     }"

text \<open>
  The client that has created the store without initial data and added \<open>r0\<close>,
  \<open>r1\<close> and \<open>r2\<close> updates a record.
\<close>

definition update_after_three_records ::
  "int32 \<Rightarrow> byte list \<Rightarrow> (observation \<times> GLerror list) option" where
  "update_after_three_records index bytes =
     do {
       (g, a) \<leftarrow> three_records;
       g \<leftarrow> update_instance g a index (client_span bytes);
       Some (observe (g, a), errors g)
     }"

section \<open>Layout: stride and offsets\<close>

lemma layout_loop_length: "length (fst (layout_loop st as)) = length as"
  by (induction as arbitrary: st) (simp_all add: Let_def)

lemma field_bytes_unat:
  assumes "field_bytes a < 2 ^ 64"
  shows "unat (shader_data_type_size (type a) * element_count a) = field_bytes a"
proof -
  have "unat (shader_data_type_size (type a)) * unat (element_count a) < 2 ^ LENGTH(64)"
    using assms by (simp add: field_bytes_def)
  then show ?thesis
    by (simp add: field_bytes_def unat_mult_lem [THEN iffD1])
qed

lemma layout_loop_stride:
  "unat st + layout_bytes as < 2 ^ 64 \<Longrightarrow>
   unat (snd (layout_loop st as)) = unat st + layout_bytes as"
proof (induction as arbitrary: st)
  case Nil
  then show ?case by (simp add: layout_bytes_def)
next
  case (Cons a as)
  let ?w = "shader_data_type_size (type a) * element_count a"
  from Cons.prems have fb: "field_bytes a < 2 ^ 64"
    by (simp add: layout_bytes_def)
  then have w: "unat ?w = field_bytes a" by (rule field_bytes_unat)
  from Cons.prems have "unat st + unat ?w < 2 ^ LENGTH(64)"
    by (simp add: w layout_bytes_def)
  then have st': "unat (st + ?w) = unat st + field_bytes a"
    by (simp add: unat_add_lem [THEN iffD1] w)
  with Cons.prems have "unat (st + ?w) + layout_bytes as < 2 ^ 64"
    by (simp add: layout_bytes_def)
  from Cons.IH [OF this] show ?case
    by (simp add: Let_def st' layout_bytes_def)
qed

lemma layout_loop_offset:
  "unat st + layout_bytes as < 2 ^ 64 \<Longrightarrow> i < length as \<Longrightarrow>
   fst (layout_loop st as) ! i =
     (as ! i)\<lparr>offset := ucast (word_of_nat (unat st + layout_bytes (take i as)) :: size_t)\<rparr>"
proof (induction as arbitrary: st i)
  case Nil
  then show ?case by simp
next
  case (Cons a as)
  let ?w = "shader_data_type_size (type a) * element_count a"
  from Cons.prems have fb: "field_bytes a < 2 ^ 64"
    by (simp add: layout_bytes_def)
  then have w: "unat ?w = field_bytes a" by (rule field_bytes_unat)
  from Cons.prems have "unat st + unat ?w < 2 ^ LENGTH(64)"
    by (simp add: w layout_bytes_def)
  then have st': "unat (st + ?w) = unat st + field_bytes a"
    by (simp add: unat_add_lem [THEN iffD1] w)
  show ?case
  proof (cases i)
    case 0
    then show ?thesis by (simp add: Let_def layout_bytes_def)
  next
    case (Suc j)
    with Cons.prems have j: "j < length as" by simp
    from Cons.prems have "unat (st + ?w) + layout_bytes as < 2 ^ 64"
      by (simp add: st' layout_bytes_def)
    from Cons.IH [OF this j] show ?thesis
      by (simp add: Suc Let_def st' layout_bytes_def add.assoc)
  qed
qed

lemma layout_bytes_take_le: "layout_bytes (take i as) \<le> layout_bytes as"
proof -
  have "layout_bytes as = layout_bytes (take i as) + layout_bytes (drop i as)"
    unfolding layout_bytes_def
    by (metis append_take_drop_id map_append sum_list_append)
  then show ?thesis by simp
qed

text \<open>
  C7. For every layout built from an ordered field list whose record fits the 32-bit
  \<^verbatim>\<open>offset\<close> field of an attribute (fewer than \<open>2^32\<close> bytes): the stride is the sum
  over the fields of \<open>size(kind) * element_count\<close>; the constructor keeps the fields
  in order and changes nothing but their offsets; the offset of field \<open>i\<close> is the sum
  over the fields before it, so the fields are packed without gap or overlap. The layout
  built from \<open>[(vec3, "pos"), (vec2, "uv")]\<close> has stride 20, with \<open>pos\<close> at offset 0
  and \<open>uv\<close> at offset 12.
\<close>

theorem layout_stride_offsets:
  "(layout_bytes as < 2 ^ 32 \<longrightarrow>
      unat (stride (VertexBufferLayout_ctor as)) = layout_bytes as \<and>
      length (get_attributes (VertexBufferLayout_ctor as)) = length as \<and>
      (\<forall>i < length as.
         get_attributes (VertexBufferLayout_ctor as) ! i =
           (as ! i)\<lparr>offset := offset (get_attributes (VertexBufferLayout_ctor as) ! i)\<rparr> \<and>
         unat (offset (get_attributes (VertexBufferLayout_ctor as) ! i)) =
           layout_bytes (take i as) \<and>
         layout_bytes (take (Suc i) as) = layout_bytes (take i as) + field_bytes (as ! i))) \<and>
   stride (VertexBufferLayout_ctor
      [VertexAttribute_ctor vec3 ''pos'', VertexAttribute_ctor vec2 ''uv'']) = 5 * 4 \<and>
   map (\<lambda>a. (name a, offset a)) (get_attributes (VertexBufferLayout_ctor
      [VertexAttribute_ctor vec3 ''pos'', VertexAttribute_ctor vec2 ''uv''])) =
     [(''pos'', 0), (''uv'', 12)]"
proof (intro conjI impI allI)
  assume b: "layout_bytes as < 2 ^ 32"
  then have b64: "unat (0 :: size_t) + layout_bytes as < 2 ^ 64" by simp
  show "unat (stride (VertexBufferLayout_ctor as)) = layout_bytes as"
    using layout_loop_stride [OF b64]
    by (simp add: stride_def VertexBufferLayout_ctor_def Let_def)
  show "length (get_attributes (VertexBufferLayout_ctor as)) = length as"
    by (simp add: get_attributes_def VertexBufferLayout_ctor_def Let_def layout_loop_length)
  fix i
  assume i: "i < length as"
  have eq: "get_attributes (VertexBufferLayout_ctor as) ! i =
      (as ! i)\<lparr>offset := ucast (word_of_nat (layout_bytes (take i as)) :: size_t)\<rparr>"
    using layout_loop_offset [OF b64 i]
    by (simp add: get_attributes_def VertexBufferLayout_ctor_def Let_def)
  show "get_attributes (VertexBufferLayout_ctor as) ! i =
      (as ! i)\<lparr>offset := offset (get_attributes (VertexBufferLayout_ctor as) ! i)\<rparr>"
    by (simp add: eq)
  have le: "layout_bytes (take i as) < 2 ^ 32"
    using layout_bytes_take_le [of i as] b by simp
  have "unat (ucast (word_of_nat (layout_bytes (take i as)) :: size_t) :: uint32) =
      layout_bytes (take i as)"
    using le by (simp add: unsigned_ucast_eq unsigned_of_nat take_bit_nat_eq_self)
  then show "unat (offset (get_attributes (VertexBufferLayout_ctor as) ! i)) =
      layout_bytes (take i as)"
    by (simp add: eq)
  show "layout_bytes (take (Suc i) as) = layout_bytes (take i as) + field_bytes (as ! i)"
    using i by (simp add: layout_bytes_def take_Suc_conv_app_nth)
next
  show "stride (VertexBufferLayout_ctor
      [VertexAttribute_ctor vec3 ''pos'', VertexAttribute_ctor vec2 ''uv'']) = 5 * 4"
    by (simp add: stride_def VertexBufferLayout_ctor_def VertexAttribute_ctor_def
        Let_def sizeof_float_def)
  show "map (\<lambda>a. (name a, offset a)) (get_attributes (VertexBufferLayout_ctor
      [VertexAttribute_ctor vec3 ''pos'', VertexAttribute_ctor vec2 ''uv''])) =
     [(''pos'', 0), (''uv'', 12)]"
    by (simp add: get_attributes_def VertexBufferLayout_ctor_def VertexAttribute_ctor_def
        Let_def sizeof_float_def)
qed

theorem layout_stride_offsets_witness:
  "layout_bytes [VertexAttribute_ctor vec3 ''pos'', VertexAttribute_ctor vec2 ''uv''] < 2 ^ 32 \<and>
   unat (stride (VertexBufferLayout_ctor
      [VertexAttribute_ctor vec3 ''pos'', VertexAttribute_ctor vec2 ''uv''])) = 20 \<and>
   unat (offset (get_attributes (VertexBufferLayout_ctor
      [VertexAttribute_ctor vec3 ''pos'', VertexAttribute_ctor vec2 ''uv'']) ! 1)) = 12"
proof -
  let ?as = "[VertexAttribute_ctor vec3 ''pos'', VertexAttribute_ctor vec2 ''uv'']"
  have b: "layout_bytes ?as = 20"
    by (simp add: layout_bytes_def field_bytes_def VertexAttribute_ctor_def sizeof_float_def)
  have t: "layout_bytes (take 1 ?as) = 12"
    by (simp add: layout_bytes_def field_bytes_def VertexAttribute_ctor_def sizeof_float_def)
  from layout_stride_offsets [of ?as] b
  have "unat (stride (VertexBufferLayout_ctor ?as)) = layout_bytes ?as"
    and "\<forall>i < length ?as. unat (offset (get_attributes (VertexBufferLayout_ctor ?as) ! i)) =
           layout_bytes (take i ?as)"
    by simp_all
  then show ?thesis using b t by simp
qed

section \<open>Words, spans and the API\<close>

lemma sint_of_nat_64: "n < 2 ^ 63 \<Longrightarrow> sint (word_of_nat n :: size_t) = int n"
  by (simp add: signed_of_nat signed_take_bit_int_eq_self)

lemma scast_nonneg:
  "0 \<le> sint (x :: int32) \<Longrightarrow> (scast x :: size_t) = word_of_nat (nat (sint x))"
  by simp

lemma size_bytes_client_span:
  "4 dvd length bs \<Longrightarrow> size_bytes (client_span bs) = word_of_nat (length bs)"
  by (auto simp add: size_bytes_def client_span_def sizeof_float_def)

lemma span_data_client_span: "span_data (client_span bs) = Client bs"
  by (simp add: client_span_def)

lemma glBindBuffer_existing:
  "b \<noteq> 0 \<Longrightarrow> b \<in> set (gen_names g) \<Longrightarrow> buffers g b = Some bo \<Longrightarrow>
   glBindBuffer g t b = g\<lparr>binding := (binding g)(t := b)\<rparr>"
  by (simp add: glBindBuffer_def)

lemma glBufferSubData_write:
  assumes "binding g t = b" and "b \<noteq> 0" and "buffers g b = Some bo"
    and "\<not> range_mapped bo off n" and "off + n \<le> length (data_store bo)"
    and "read_ptr g p n = Some bs"
  shows "glBufferSubData g t (int off) (int n) p =
     Some (g\<lparr>buffers := (buffers g)(b \<mapsto>
        bo\<lparr>data_store := take off (data_store bo) @ bs @ drop (off + n) (data_store bo)\<rparr>)\<rparr>)"
  using assms by (simp add: glBufferSubData_def)

lemma slot_offset_sint:
  assumes "0 \<le> sint (index :: int32)" and "(nat (sint index) + 1) * n < 2 ^ 63"
  shows "sint (scast index * word_of_nat n :: size_t) = int (nat (sint index) * n)"
proof -
  have "(scast index :: size_t) * word_of_nat n = word_of_nat (nat (sint index) * n)"
    using assms(1) by simp
  moreover have "nat (sint index) * n < 2 ^ 63"
    using assms(2) by (simp add: algebra_simps)
  ultimately show ?thesis by (simp only: sint_of_nat_64)
qed

lemmas gl_defs = glGenBuffers_def glBindBuffer_def glBufferData_def glBufferSubData_def
  glCopyBufferSubData_def glDeleteBuffers_def glMapBufferRange_def glUnmapBuffer_def
  raise_def read_ptr_def range_mapped_def fresh_name_def

lemma stride_layout_f32: "stride layout_f32 = 4" "stride_elements layout_f32 = 1"
  by (simp_all add: layout_f32_def stride_def stride_elements_def VertexBufferLayout_ctor_def
      VertexAttribute_ctor_def Let_def sizeof_float_def)

lemma stride_layout_pos_uv: "stride layout_pos_uv = 20"
  by (simp add: layout_pos_uv_def stride_def VertexBufferLayout_ctor_def VertexAttribute_ctor_def
      Let_def sizeof_float_def)

section \<open>Updating a record in place\<close>

lemma update_instance_client:
  assumes ok: "store_ok g this"
    and i0: "0 \<le> sint index" and ic: "sint index < sint (m_count this)"
    and len: "length bytes = unat (instance_size this)" and fl: "4 dvd length bytes"
  shows "update_instance g this index (client_span bytes) =
     Some (g\<lparr>binding := (binding g)(GL_ARRAY_BUFFER := m_id this),
             buffers := (buffers g)(m_id this \<mapsto>
               \<lparr>data_store =
                  take (nat (sint index) * length bytes) (store_bytes g this) @ bytes @
                  drop (nat (sint index) * length bytes + length bytes) (store_bytes g this),
                mapped_range = None\<rparr>)\<rparr>) \<and>
     nat (sint index) * length bytes + length bytes \<le> length (store_bytes g this)"
proof -
  let ?i = "nat (sint index)" and ?n = "length bytes"
  from ok obtain bo where bo: "buffers g (m_id this) = Some bo"
    and id0: "m_id this \<noteq> 0" and gen: "m_id this \<in> set (gen_names g)"
    and um: "mapped_range bo = None"
    and fit: "nat (sint (m_count this)) * unat (instance_size this) \<le> length (data_store bo)"
    and small: "length (data_store bo) < 2 ^ 63"
    by (auto simp: store_ok_def split: option.splits)
  have "Suc ?i \<le> nat (sint (m_count this))" using i0 ic by simp
  then have "Suc ?i * ?n \<le> nat (sint (m_count this)) * ?n"
    by (rule mult_le_mono1)
  with fit len have in_store: "?i * ?n + ?n \<le> length (data_store bo)" by simp
  with small have b63: "(?i + 1) * ?n < 2 ^ 63" by simp
  have off: "sint (scast index * size_bytes (client_span bytes) :: size_t) = int (?i * ?n)"
    using slot_offset_sint [OF i0 b63] fl by (simp add: size_bytes_client_span)
  have "?n < 2 ^ 63" using in_store small by simp
  then have sz: "sint (size_bytes (client_span bytes)) = int ?n"
    using fl by (simp add: size_bytes_client_span sint_of_nat_64)
  have bind: "glBindBuffer g GL_ARRAY_BUFFER (m_id this) =
      g\<lparr>binding := (binding g)(GL_ARRAY_BUFFER := m_id this)\<rparr>"
    using id0 gen bo by (rule glBindBuffer_existing)
  let ?g1 = "g\<lparr>binding := (binding g)(GL_ARRAY_BUFFER := m_id this)\<rparr>"
  have w: "glBufferSubData ?g1 GL_ARRAY_BUFFER (int (?i * ?n)) (int ?n) (Client bytes) =
      Some (?g1\<lparr>buffers := (buffers ?g1)(m_id this \<mapsto>
              bo\<lparr>data_store := take (?i * ?n) (data_store bo) @ bytes @
                                  drop (?i * ?n + ?n) (data_store bo)\<rparr>)\<rparr>)"
  proof (rule glBufferSubData_write)
    show "binding ?g1 GL_ARRAY_BUFFER = m_id this" by simp
    show "m_id this \<noteq> 0" by (rule id0)
    show "buffers ?g1 (m_id this) = Some bo" using bo by simp
    show "\<not> range_mapped bo (?i * ?n) ?n" using um by (simp add: range_mapped_def)
    show "?i * ?n + ?n \<le> length (data_store bo)" by (rule in_store)
    show "read_ptr ?g1 (Client bytes) ?n = Some bytes" by (simp add: read_ptr_def)
  qed
  have "update_instance g this index (client_span bytes) =
      Some (?g1\<lparr>buffers := (buffers ?g1)(m_id this \<mapsto>
              bo\<lparr>data_store := take (?i * ?n) (data_store bo) @ bytes @
                                  drop (?i * ?n + ?n) (data_store bo)\<rparr>)\<rparr>)"
    unfolding update_instance_def Let_def bind off sz span_data_client_span by (rule w)
  then show ?thesis
    using in_store bo um by (cases bo) (simp add: store_bytes_def)
qed

text \<open>
  The round trip on a store whose buffer holds its records. For every store that owns
  an unmapped buffer holding its \<open>count\<close> records, every index \<open>0 \<le> i < count\<close>
  and every record of \<open>instance_size()\<close> bytes (whole floats):
  \<open>update_instance(i, bytes)\<close> returns, and afterwards slot \<open>i\<close> of the buffer reads
  back exactly \<open>bytes\<close>. The write lands at byte offset \<open>i * record_size\<close>: the bytes
  before that offset and the bytes from \<open>(i + 1) * record_size\<close> on are the old ones, the
  data store keeps its size (no resize), and the function does not change the store
  object, so capacity and count stay.
\<close>

theorem update_instance_round_trip:
  assumes "store_ok g this"
    and "0 \<le> sint index" and "sint index < sint (instance_count this)"
    and "length bytes = unat (instance_size this)" and "4 dvd length bytes"
  shows "\<exists>g'. update_instance g this index (client_span bytes) = Some g' \<and>
           slot (unat (instance_size this)) (store_bytes g' this) (nat (sint index)) = bytes \<and>
           store_bytes g' this =
             take (nat (sint index) * unat (instance_size this)) (store_bytes g this) @ bytes @
             drop ((nat (sint index) + 1) * unat (instance_size this)) (store_bytes g this) \<and>
           length (store_bytes g' this) = length (store_bytes g this) \<and>
           store_ok g' this"
proof -
  from assms have ok: "store_ok g this" and c: "sint index < sint (m_count this)"
    by (simp_all add: instance_count_def)
  note u = update_instance_client [OF ok assms(2) c assms(4) assms(5)]
  from ok have "m_id this \<noteq> 0 \<and> m_id this \<in> set (gen_names g) \<and> 0 \<le> sint (m_count this) \<and>
      nat (sint (m_count this)) * unat (instance_size this) \<le> length (store_bytes g this) \<and>
      length (store_bytes g this) < 2 ^ 63"
    by (auto simp: store_ok_def store_bytes_def split: option.splits)
  with u show ?thesis
    using assms(4) by (simp add: store_bytes_def slot_def store_ok_def algebra_simps)
qed

theorem update_instance_round_trip_witness:
  "store_ok gl_three store_three \<and> 0 \<le> sint (1 :: int32) \<and>
   sint (1 :: int32) < sint (instance_count store_three) \<and>
   length [7, 7, 7, 7 :: byte] = unat (instance_size store_three) \<and>
   (\<exists>g'. update_instance gl_three store_three 1 (client_span [7, 7, 7, 7]) = Some g' \<and>
          store_bytes g' store_three = r0 @ [7, 7, 7, 7] @ r2 @ replicate 116 0)"
proof -
  have ok: "store_ok gl_three store_three"
    by (simp add: store_ok_def gl_three_def gl_init_def store_three_def instance_size_def
        stride_layout_f32 r0_def r1_def r2_def)
  have sz: "unat (instance_size store_three) = 4"
    by (simp add: instance_size_def store_three_def stride_layout_f32)
  have c: "sint (instance_count store_three) = 3"
    by (simp add: instance_count_def store_three_def)
  have old: "store_bytes gl_three store_three = r0 @ r1 @ r2 @ replicate 116 0"
    by (simp add: store_bytes_def gl_three_def store_three_def)
  have i0: "0 \<le> sint (1 :: int32)" by simp
  have ic: "sint (1 :: int32) < sint (instance_count store_three)" by (simp add: c)
  have len: "length [7, 7, 7, 7 :: byte] = unat (instance_size store_three)" by (simp add: sz)
  have fl: "4 dvd length [7, 7, 7, 7 :: byte]" by (simp add: eval_nat_numeral)
  from update_instance_round_trip [OF ok i0 ic len fl]
  obtain g' where "update_instance gl_three store_three 1 (client_span [7, 7, 7, 7]) = Some g'"
    and "store_bytes g' store_three =
      take (nat (sint (1 :: int32)) * unat (instance_size store_three)) (store_bytes gl_three store_three) @
      [7, 7, 7, 7] @
      drop ((nat (sint (1 :: int32)) + 1) * unat (instance_size store_three)) (store_bytes gl_three store_three)"
    by blast
  then show ?thesis
    using ok sz c by (simp add: old r0_def r1_def r2_def)
qed

section \<open>Deleting with an index out of range\<close>

text \<open>
  C5. For every store (in every state of the graphics context) and every index with
  \<open>index < 0\<close> or \<open>index \<ge> count\<close>, \<open>delete_instance(index)\<close> returns the prior
  count and leaves the store object (count, capacity) and the whole graphics context,
  hence every record byte, as they were. On an empty store that is so for every index.
\<close>

theorem delete_instance_out_of_range:
  "(sint index < 0 \<or> sint (instance_count this) \<le> sint index \<longrightarrow>
      delete_instance g this index = Some (g, this, instance_count this)) \<and>
   (instance_count this = 0 \<longrightarrow> delete_instance g this index = Some (g, this, 0))"
  by (auto simp add: delete_instance_def instance_count_def)

theorem delete_instance_out_of_range_witness:
  "(sint (3 :: int32) < 0 \<or> sint (instance_count store_three) \<le> sint (3 :: int32)) \<and>
   delete_instance gl_three store_three 3 = Some (gl_three, store_three, 3) \<and>
   (sint (- 1 :: int32) < 0 \<or> sint (instance_count store_three) \<le> sint (- 1 :: int32)) \<and>
   delete_instance gl_three store_three (- 1) = Some (gl_three, store_three, 3) \<and>
   instance_count store_empty = 0 \<and>
   delete_instance gl_one store_empty 0 =
     Some (gl_one, store_empty, 0)"
proof -
  have c: "instance_count store_three = 3"
    by (simp add: instance_count_def store_three_def)
  have a: "sint (3 :: int32) < 0 \<or> sint (instance_count store_three) \<le> sint (3 :: int32)"
    by (simp add: c)
  have b: "sint (- 1 :: int32) < 0 \<or> sint (instance_count store_three) \<le> sint (- 1 :: int32)"
    by simp
  have e: "instance_count store_empty = 0"
    by (simp add: instance_count_def store_empty_def)
  from delete_instance_out_of_range [of 3 store_three gl_three] a
  have 1: "delete_instance gl_three store_three 3 = Some (gl_three, store_three, 3)"
    by (simp add: c)
  from delete_instance_out_of_range [of "- 1" store_three gl_three] b
  have 2: "delete_instance gl_three store_three (- 1) = Some (gl_three, store_three, 3)"
    by (simp add: c)
  from delete_instance_out_of_range [of 0 "store_empty" gl_one] e
  have 3: "delete_instance gl_one store_empty 0 =
     Some (gl_one, store_empty, 0)"
    by simp
  from a b e 1 2 3 show ?thesis by blast
qed

section \<open>Moving and destroying a store\<close>

lemma glDeleteBuffers_zero: "glDeleteBuffers g 0 = g"
  by (simp add: glDeleteBuffers_def)

text \<open>
  C9. Move construction gives the new object the buffer name of the source and leaves
  the source with name 0. Move assignment between two different objects does the same
  (after releasing the buffer the destination owned); assigning an object to itself is
  guarded by \<^verbatim>\<open>this != &other\<close> and changes nothing. The destructor of an object
  whose name is 0 leaves the graphics context as it is, so destroying the moved-from
  object releases nothing. The copy constructor and the copy assignment are declared
  \<^verbatim>\<open>= delete\<close> in both classes; that is a declaration without behaviour, and the
  model has no copy operation.
\<close>

theorem move_transfers_handle:
  "m_id (fst (VertexBufferInst_move_ctor src)) = m_id src \<and>
   m_id (snd (VertexBufferInst_move_ctor src)) = 0 \<and>
   VertexBuffer_dtor g (snd (VertexBufferInst_move_ctor src)) = g \<and>
   (this \<noteq> other \<longrightarrow>
      m_id (snd (VertexBufferInst_move_assign g h this other) this) = m_id (h other) \<and>
      m_id (snd (VertexBufferInst_move_assign g h this other) other) = 0 \<and>
      fst (VertexBufferInst_move_assign g h this other) = glDeleteBuffers g (m_id (h this)) \<and>
      VertexBuffer_dtor (fst (VertexBufferInst_move_assign g h this other))
        (snd (VertexBufferInst_move_assign g h this other) other) =
        fst (VertexBufferInst_move_assign g h this other)) \<and>
   VertexBufferInst_move_assign g h this this = (g, h)"
  by (simp add: VertexBufferInst_move_ctor_def VertexBufferLayout_move_def VertexBuffer_dtor_def
      VertexBufferInst_move_assign_def VertexBuffer_move_assign_def Let_def)

text \<open>
  At a concrete input: object 0 of the heap owns buffer 1, object 1 is a store that was
  moved from before; after \<^verbatim>\<open>h[1] = std::move(h[0])\<close> object 1 owns buffer 1, object 0
  has name 0, and destroying object 0 keeps buffer 1 alive.
\<close>

theorem move_transfers_handle_witness:
  "(1 :: addr) \<noteq> 0 \<and>
   m_id (snd (VertexBufferInst_move_assign gl_three
           (\<lambda>a. if a = 0 then store_three else store_three\<lparr>m_id := 0\<rparr>) 1 0) 1) = 1 \<and>
   m_id (snd (VertexBufferInst_move_assign gl_three
           (\<lambda>a. if a = 0 then store_three else store_three\<lparr>m_id := 0\<rparr>) 1 0) 0) = 0 \<and>
   VertexBuffer_dtor
     (fst (VertexBufferInst_move_assign gl_three
           (\<lambda>a. if a = 0 then store_three else store_three\<lparr>m_id := 0\<rparr>) 1 0))
     (snd (VertexBufferInst_move_assign gl_three
           (\<lambda>a. if a = 0 then store_three else store_three\<lparr>m_id := 0\<rparr>) 1 0) 0) = gl_three"
proof -
  let ?h = "\<lambda>a :: addr. if a = 0 then store_three else store_three\<lparr>m_id := 0\<rparr>"
  let ?r = "VertexBufferInst_move_assign gl_three ?h 1 0"
  have ne: "(1 :: addr) \<noteq> 0" by simp
  from move_transfers_handle [of store_three gl_three 1 0 ?h] ne
  have a: "m_id (snd ?r 1) = m_id (?h 0)" and b: "m_id (snd ?r 0) = 0"
    and c: "fst ?r = glDeleteBuffers gl_three (m_id (?h 1))"
    and d: "VertexBuffer_dtor (fst ?r) (snd ?r 0) = fst ?r"
    by blast+
  have e: "glDeleteBuffers gl_three (m_id (?h 1)) = gl_three"
    by (simp add: glDeleteBuffers_zero)
  have f: "m_id (?h 0) = 1" by (simp add: store_three_def)
  from a b c d e f ne show ?thesis by simp
qed

section \<open>Looking up a field of a layout\<close>








section \<open>Constructing a store\<close>

lemma foldr_max_mem: "foldr max ns (0 :: uint32) \<in> insert 0 (set ns)"
  by (induction ns) (auto simp add: max_def)

lemma fresh_name_nonzero: "- 1 \<notin> set ns \<Longrightarrow> fresh_name ns \<noteq> 0"
proof
  assume a: "- 1 \<notin> set ns" and z: "fresh_name ns = 0"
  from z have "foldr max ns 0 = (- 1 :: uint32)"
    by (simp add: fresh_name_def add_eq_0_iff2)
  with foldr_max_mem [of ns] a show False by auto
qed

lemma VertexBufferInst_ctor_client:
  assumes "- 1 \<notin> set (gen_names g)" and "4 dvd length bytes" and "length bytes < 2 ^ 63"
  shows "\<exists>g'. VertexBufferInst_ctor g (client_span bytes) layout =
      Some (g', \<lparr>m_id = fresh_name (gen_names g), m_layout = layout,
                 m_capacity = word_of_nat (length bytes div 4), m_count = 0\<rparr>) \<and>
      buffers g' (fresh_name (gen_names g)) = Some \<lparr>data_store = bytes, mapped_range = None\<rparr> \<and>
      binding g' GL_ARRAY_BUFFER = fresh_name (gen_names g)"
proof -
  from assms(1) have nz: "fresh_name (gen_names g) \<noteq> 0" by (rule fresh_name_nonzero)
  have sz: "sint (size_bytes (client_span bytes)) = int (length bytes)"
    using assms(2,3) by (simp add: size_bytes_client_span sint_of_nat_64)
  have rd: "read_ptr g0 (Client bytes) (length bytes) = Some bytes" for g0
    by (simp add: read_ptr_def)
  show ?thesis
    using nz
    by (simp add: VertexBufferInst_ctor_def VertexBuffer_ctor_def glGenBuffers_def glBindBuffer_def
        glBufferData_def Let_def sz rd span_data_client_span client_span_def [THEN arg_cong, of span_size]
        split: option.splits)
qed

lemma VertexBufferInst_ctor_empty:
  assumes "- 1 \<notin> set (gen_names g)"
  shows "\<exists>g'. VertexBufferInst_ctor g empty_span layout =
      Some (g', \<lparr>m_id = fresh_name (gen_names g), m_layout = layout,
                 m_capacity = 0, m_count = 0\<rparr>) \<and>
      buffers g' (fresh_name (gen_names g)) = Some \<lparr>data_store = [], mapped_range = None\<rparr> \<and>
      binding g' GL_ARRAY_BUFFER = fresh_name (gen_names g)"
proof -
  from assms(1) have nz: "fresh_name (gen_names g) \<noteq> 0" by (rule fresh_name_nonzero)
  show ?thesis
    using nz
    by (simp add: VertexBufferInst_ctor_def VertexBuffer_ctor_def glGenBuffers_def glBindBuffer_def
        glBufferData_def Let_def empty_span_def size_bytes_def split: option.splits)
qed

text \<open>
  C4, as the claim states it, fails where no initial data is given: the constructor
  allocates a data store of zero bytes, not of one stride. In a fresh context, with the
  layout of 20 bytes per record, what the caller observes after construction is an empty
  data store, where the specification's \<open>create\<close> allocates 20 bytes.
\<close>

theorem create_minimum_counterexample:
  "map_option observe (VertexBufferInst_ctor gl_init empty_span layout_pos_uv) =
     Some \<lparr>obs_capacity = 0, obs_count = 0, obs_stride = 20, obs_bytes = []\<rparr> \<and>
   spec_create_alloc empty_span layout_pos_uv = 20"
  by (simp add: VertexBufferInst_ctor_def VertexBuffer_ctor_def gl_defs gl_init_def
      empty_span_def size_bytes_def Let_def observe_def capacity_def instance_count_def
      instance_size_def stride_layout_pos_uv store_bytes_def spec_create_alloc_def)

text \<open>
  C4, amended. In a context that has a buffer name left, constructing a store from
  initial data (whole floats, fewer than \<open>2^63\<close> bytes) and a layout returns a store
  with that layout that owns a new buffer, bound to \<^verbatim>\<open>GL_ARRAY_BUFFER\<close>, whose data
  store is exactly the initial data: its size is the byte size of the data, and zero
  bytes when no data is given (there is no minimum of one stride). When no data is given,
  \<open>capacity()\<close> is 0, the byte size of that allocation, and \<open>instance_count()\<close> is 0.
\<close>

theorem create_allocates_initial_data:
  assumes "- 1 \<notin> set (gen_names g)"
    and "4 dvd length bytes" and "length bytes < 2 ^ 63"
    and "initial_data = client_span bytes \<or> (bytes = [] \<and> initial_data = empty_span)"
  shows "\<exists>g' this. VertexBufferInst_ctor g initial_data layout = Some (g', this) \<and>
           m_id this \<noteq> 0 \<and> m_id this \<in> set (gen_names g') \<and> m_id this \<notin> set (gen_names g) \<and>
           binding g' GL_ARRAY_BUFFER = m_id this \<and>
           m_layout this = layout \<and>
           store_bytes g' this = bytes \<and>
           length (store_bytes g' this) = unat (size_bytes initial_data) \<and>
           (bytes = [] \<longrightarrow> capacity this = 0 \<and> instance_count this = 0 \<and>
              unat (capacity this) = length (store_bytes g' this))"
proof -
  let ?n = "fresh_name (gen_names g)"
  from assms(1) have nz: "?n \<noteq> 0" by (rule fresh_name_nonzero)
  have fresh: "?n \<notin> set (gen_names g)"
  proof
    assume m: "?n \<in> set (gen_names g)"
    have "x \<le> foldr max ns 0" if "x \<in> set ns" for x :: uint32 and ns
      using that by (induction ns) (auto simp add: max_def)
    from this [OF m] have "foldr max (gen_names g) 0 + 1 \<le> foldr max (gen_names g) 0"
      by (simp add: fresh_name_def)
    moreover have "foldr max (gen_names g) 0 \<noteq> - 1"
      using foldr_max_mem [of "gen_names g"] assms(1) by auto
    ultimately show False
      by (metis inc_less_eq_triv_imp)
  qed
  have sz: "unat (size_bytes (client_span bytes)) = length bytes"
    using assms(2,3)
    by (simp add: size_bytes_client_span unsigned_of_nat take_bit_nat_eq_self)
  have gen: "\<And>g'. VertexBufferInst_ctor g sp layout = Some (g', t) \<Longrightarrow> ?n \<in> set (gen_names g')" for sp t
    by (auto simp add: VertexBufferInst_ctor_def VertexBuffer_ctor_def glGenBuffers_def
        glBindBuffer_def glBufferData_def Let_def raise_def split: option.splits if_splits pointer.splits)
  from assms(4) show ?thesis
  proof
    assume d: "initial_data = client_span bytes"
    from VertexBufferInst_ctor_client [OF assms(1,2,3), of layout] obtain g'
      where c: "VertexBufferInst_ctor g (client_span bytes) layout =
          Some (g', \<lparr>m_id = ?n, m_layout = layout,
                     m_capacity = word_of_nat (length bytes div 4), m_count = 0\<rparr>)"
        and b: "buffers g' ?n = Some \<lparr>data_store = bytes, mapped_range = None\<rparr>"
        and bi: "binding g' GL_ARRAY_BUFFER = ?n" by blast
    from gen [OF c] c b bi nz fresh sz show ?thesis
      by (simp add: d store_bytes_def capacity_def instance_count_def)
  next
    assume d: "bytes = [] \<and> initial_data = empty_span"
    from VertexBufferInst_ctor_empty [OF assms(1), of layout] obtain g'
      where c: "VertexBufferInst_ctor g empty_span layout =
          Some (g', \<lparr>m_id = ?n, m_layout = layout, m_capacity = 0, m_count = 0\<rparr>)"
        and b: "buffers g' ?n = Some \<lparr>data_store = [], mapped_range = None\<rparr>"
        and bi: "binding g' GL_ARRAY_BUFFER = ?n" by blast
    from gen [OF c] c b bi nz fresh d show ?thesis
      by (simp add: store_bytes_def capacity_def instance_count_def size_bytes_def empty_span_def)
  qed
qed

theorem create_allocates_initial_data_witness:
  "- 1 \<notin> set (gen_names gl_init) \<and> 4 dvd length record20 \<and> length record20 < 2 ^ 63 \<and>
   (\<exists>g' this. VertexBufferInst_ctor gl_init (client_span record20) layout_pos_uv = Some (g', this) \<and>
      store_bytes g' this = record20 \<and> length (store_bytes g' this) = 20) \<and>
   (\<exists>g' this. VertexBufferInst_ctor gl_init empty_span layout_pos_uv = Some (g', this) \<and>
      store_bytes g' this = [] \<and> capacity this = 0 \<and> instance_count this = 0)"
proof -
  have n: "- 1 \<notin> set (gen_names gl_init)" by (simp add: gl_init_def)
  have l: "length record20 = 20" by (simp add: record20_def)
  have d: "4 dvd length record20" by (simp add: l)
  have s: "length record20 < 2 ^ 63" by (simp add: l)
  have e0: "4 dvd length ([] :: byte list)" and e1: "length ([] :: byte list) < 2 ^ 63"
    by simp_all
  from create_allocates_initial_data [OF n d s, of "client_span record20" layout_pos_uv]
  have a: "\<exists>g' this. VertexBufferInst_ctor gl_init (client_span record20) layout_pos_uv = Some (g', this) \<and>
      store_bytes g' this = record20 \<and> length (store_bytes g' this) = 20"
    using l by auto
  from create_allocates_initial_data [OF n e0 e1, of empty_span layout_pos_uv]
  have b: "\<exists>g' this. VertexBufferInst_ctor gl_init empty_span layout_pos_uv = Some (g', this) \<and>
      store_bytes g' this = [] \<and> capacity this = 0 \<and> instance_count this = 0"
    by auto
  from n d s a b show ?thesis by blast
qed

section \<open>The growth policy\<close>

subsection \<open>Rounding to 53 bits\<close>

lemma bit_length_less: "n < 2 ^ k \<Longrightarrow> bit_length n \<le> k"
proof (induction n arbitrary: k rule: bit_length.induct)
  case (1 n)
  show ?case
  proof (cases "n = 0")
    case True
    then show ?thesis by (simp add: bit_length.simps)
  next
    case False
    with "1.prems" obtain j where k: "k = Suc j" by (cases k) auto
    with "1.prems" have "n div 2 < 2 ^ j" by auto
    from "1.IH" [OF False this] show ?thesis
      using False k by (simp add: bit_length.simps [of n])
  qed
qed

lemma bit_length_greater: "2 ^ k \<le> n \<Longrightarrow> k < bit_length n"
proof (induction n arbitrary: k rule: bit_length.induct)
  case (1 n)
  have "0 < (2 :: nat) ^ k" by simp
  with "1.prems" have nz: "n \<noteq> 0" by linarith
  show ?case
  proof (cases k)
    case 0
    then show ?thesis using nz by (simp add: bit_length.simps [of n])
  next
    case (Suc j)
    with "1.prems" have "2 ^ j \<le> n div 2" by auto
    from "1.IH" [OF nz this] show ?thesis
      using nz Suc by (simp add: bit_length.simps [of n])
  qed
qed

lemma bit_length_eq: "2 ^ k \<le> n \<Longrightarrow> n < 2 ^ Suc k \<Longrightarrow> bit_length n = Suc k"
  using bit_length_less [of n "Suc k"] bit_length_greater [of k n] by simp

lemma round53_exact: "p < 2 ^ 53 \<Longrightarrow> round53 p = p"
  by (simp add: round53_def)

lemma round53_upper:
  assumes "p < 2 ^ 78"
  shows "round53 p \<le> p + 2 ^ 24"
proof (cases "p < 2 ^ 53")
  case True
  then show ?thesis by (simp add: round53_def)
next
  case False
  define e where "e = bit_length p - 53"
  define q where "q = p div 2 ^ e"
  define r where "r = p mod 2 ^ e"
  from False have "53 < bit_length p" by (intro bit_length_greater) simp
  moreover from assms have "bit_length p \<le> 78" by (rule bit_length_less)
  ultimately have e: "0 < e" "e \<le> 25" by (simp_all add: e_def)
  have p: "p = q * 2 ^ e + r" unfolding q_def r_def by (rule div_mult_mod_eq [symmetric])
  have half: "(2 :: nat) ^ e = 2 ^ (e - 1) + 2 ^ (e - 1)"
    using e(1) by (cases e) simp_all
  have "(2 :: nat) ^ (e - 1) \<le> 2 ^ 24"
    using e(2) by (intro power_increasing) simp_all
  moreover have "round53 p \<le> p + 2 ^ (e - 1)"
  proof (cases "2 ^ (e - 1) < r \<or> (r = 2 ^ (e - 1) \<and> odd q)")
    case True
    then have "2 ^ (e - 1) \<le> r" by auto
    moreover from True False have "round53 p = (q + 1) * 2 ^ e"
      by (simp add: round53_def Let_def e_def [symmetric] q_def [symmetric] r_def [symmetric])
    ultimately show ?thesis
      using half by (simp add: p algebra_simps)
  next
    case False
    with \<open>\<not> p < 2 ^ 53\<close> have "round53 p = q * 2 ^ e"
      by (simp add: round53_def Let_def e_def [symmetric] q_def [symmetric] r_def [symmetric])
    then show ?thesis by (simp add: p)
  qed
  ultimately show ?thesis by simp
qed

lemma round53_lower:
  assumes "p < 2 ^ 78" and "k * 2 ^ 52 \<le> p"
  shows "k * 2 ^ 52 \<le> round53 p"
proof (cases "p < 2 ^ 53")
  case True
  then show ?thesis using assms(2) by (simp add: round53_def)
next
  case False
  define e where "e = bit_length p - 53"
  define q where "q = p div 2 ^ e"
  define r where "r = p mod 2 ^ e"
  from assms(1) have "bit_length p \<le> 78" by (rule bit_length_less)
  then have e: "e \<le> 52" by (simp add: e_def)
  then have "52 = (52 - e) + e" by simp
  then have "(2 :: nat) ^ 52 = 2 ^ ((52 - e) + e)" by (rule arg_cong)
  then have sp: "(2 :: nat) ^ 52 = 2 ^ (52 - e) * 2 ^ e"
    by (simp only: power_add)
  have "k * 2 ^ 52 = k * 2 ^ (52 - e) * 2 ^ e"
    by (simp only: sp mult.assoc)
  with assms(2) have "k * 2 ^ (52 - e) * 2 ^ e \<le> p" by (simp only:)
  then have "k * 2 ^ (52 - e) \<le> q"
    unfolding q_def by (simp add: less_eq_div_iff_mult_less_eq)
  then have "k * 2 ^ (52 - e) * 2 ^ e \<le> q * 2 ^ e"
    by (rule mult_le_mono1)
  with \<open>k * 2 ^ 52 = k * 2 ^ (52 - e) * 2 ^ e\<close> have low: "k * 2 ^ 52 \<le> q * 2 ^ e"
    by (simp only:)
  have "q * 2 ^ e \<le> round53 p"
    using False
    by (simp add: round53_def Let_def e_def [symmetric] q_def [symmetric] r_def [symmetric])
  with low show ?thesis by simp
qed

subsection \<open>The double nearest to the golden ratio\<close>

lemma sqrt5_less_3: "sqrt 5 < 3"
  by (rule real_less_lsqrt) simp_all

lemma golden_ratio_less_double:
  "golden_ratio < real phi_significand / 2 ^ 52"
proof -
  have "sqrt 5 < 10070354910243152 / 2 ^ 52"
    by (rule real_less_lsqrt) (simp_all add: power2_eq_square)
  then show ?thesis
    by (simp add: golden_ratio_def phi_significand_def)
qed

lemma double_less_golden_ratio:
  "real phi_significand / 2 ^ 52 < golden_ratio + 1 / 2 ^ 54"
proof -
  define b :: real where "b = 40281419640972606 / 2 ^ 54"
  have "b < sqrt 5"
    unfolding b_def by (rule real_less_rsqrt) (simp add: power2_eq_square)
  then have "(1 + b) / 2 + 1 / 2 ^ 54 < (1 + sqrt 5) / 2 + 1 / 2 ^ 54" by simp
  moreover have "real phi_significand / 2 ^ 52 = (1 + b) / 2 + 1 / 2 ^ 54"
    by (simp add: phi_significand_def b_def)
  ultimately show ?thesis by (simp only: golden_ratio_def)
qed

text \<open>
  No multiple of the golden ratio comes close to the integer above it: for
  \<open>m > c * golden_ratio\<close> the integer \<open>m^2 - m c - c^2\<close> is the product of
  \<open>m - c * golden_ratio\<close> and \<open>m + c * (sqrt 5 - 1) / 2\<close>, and it is positive.
\<close>

lemma golden_ratio_gap:
  fixes m c :: nat
  assumes "real c * golden_ratio < real m" and "real m \<le> real c * golden_ratio + 1"
    and "0 < c"
  shows "1 / (1 + 3 * real c) < real m - real c * golden_ratio"
proof -
  define y where "y = real m - real c * golden_ratio"
  define z where "z = real m + real c * ((sqrt 5 - 1) / 2)"
  have s5: "sqrt 5 * sqrt 5 = 5" by simp
  have y: "0 < y" "y \<le> 1" using assms by (simp_all add: y_def)
  have s0: "0 \<le> sqrt 5" by simp
  have zy: "z = y + real c * sqrt 5"
    by (simp add: z_def y_def golden_ratio_def field_simps)
  have "1 \<le> sqrt 5" by (rule real_le_rsqrt) simp
  then have "0 \<le> real c * ((sqrt 5 - 1) / 2)" by simp
  have z0: "0 < z" using y(1) zy s0 by (simp add: add_pos_nonneg)
  have "y * z = real m * real m - real m * real c - real c * real c"
  proof -
    have "y * z = real m * real m - real m * real c
        - real c * real c * ((sqrt 5 * sqrt 5 - 1) / 4)"
      unfolding y_def z_def golden_ratio_def by (simp add: field_simps)
    then show ?thesis by (simp only: s5) simp
  qed
  also have "\<dots> = real_of_int (int m * int m - int m * int c - int c * int c)"
    by simp
  finally have prod: "y * z = real_of_int (int m * int m - int m * int c - int c * int c)" .
  have "0 < y * z" using y(1) z0 by simp
  with prod have "0 < int m * int m - int m * int c - int c * int c"
    by (simp only: of_int_0_less_iff)
  then have "1 \<le> int m * int m - int m * int c - int c * int c" by simp
  then have "1 \<le> real_of_int (int m * int m - int m * int c - int c * int c)"
    by (simp only: of_int_1_le_iff)
  with prod have one: "1 \<le> y * z" by simp
  show ?thesis
  proof -
    from assms(3) have "0 < real c" by simp
    then have "real c * sqrt 5 < real c * 3"
      using sqrt5_less_3 by simp
    with y(2) zy have zl: "z < 1 + 3 * real c" by simp
    have "y * z < y * (1 + 3 * real c)"
      using zl y(1) by (simp add: mult_strict_left_mono)
    with one have "1 < y * (1 + 3 * real c)" by simp
    then have "1 / (1 + 3 * real c) < y"
      by (simp add: field_simps)
    then show ?thesis by (simp add: y_def)
  qed
qed

subsection \<open>Truncated double product and floor\<close>

lemma round53_mul_phi:
  assumes c0: "0 < c" and c25: "c < 2 ^ 25"
  shows "round53 (c * phi_significand) div 2 ^ 52 = spec_growth c"
proof -
  define R where "R = spec_growth c"
  define x where "x = real c * golden_ratio"
  define d where "d = real phi_significand / 2 ^ 52"
  have g0: "0 < golden_ratio"
    unfolding golden_ratio_def by (simp add: add_pos_nonneg)
  then have x0: "0 \<le> x" by (simp add: x_def)
  then have R: "real R = of_int \<lfloor>x\<rfloor>"
    by (simp add: R_def spec_growth_def x_def)
  then have fl: "real R \<le> x" "x < real R + 1" by linarith+
  have rc: "0 < real c" "real c < 2 ^ 25"
    using c0 c25 by (simp_all flip: of_nat_less_iff)
  have p78: "c * phi_significand < 2 ^ 78"
  proof -
    have "c * phi_significand < 2 ^ 25 * 2 ^ 53"
      using c25 by (intro mult_strict_mono) (simp_all add: phi_significand_def)
    then show ?thesis by simp
  qed
  have prod: "real c * real phi_significand = real c * d * 2 ^ 52"
    by (simp add: d_def)
  text \<open>The exact product is not below \<open>R\<close>.\<close>
  have "x < real c * d"
    unfolding x_def d_def using golden_ratio_less_double rc(1) by simp
  with fl(1) have "real R * 2 ^ 52 \<le> real c * d * 2 ^ 52" by simp
  then have "real (R * 2 ^ 52) \<le> real (c * phi_significand)"
    by (simp only: prod of_nat_mult of_nat_power of_nat_numeral)
  then have low: "R * 2 ^ 52 \<le> c * phi_significand"
    by (simp only: of_nat_le_iff)
  text \<open>The exact product plus half a unit in the last place is below \<open>R + 1\<close>.\<close>
  have "real c * d < real c * (golden_ratio + 1 / 2 ^ 54)"
    unfolding d_def using double_less_golden_ratio rc(1) by simp
  also have "\<dots> = x + real c / 2 ^ 54" by (simp add: x_def algebra_simps)
  also have "\<dots> < x + 2 ^ 25 / 2 ^ 54" using rc(2) by (simp add: divide_strict_right_mono)
  finally have err: "real c * d < x + 1 / 2 ^ 29" by simp
  have g1: "1 / (1 + 3 * real c) < real (R + 1) - real c * golden_ratio"
  proof (rule golden_ratio_gap)
    show "real c * golden_ratio < real (R + 1)" using fl(2) by (simp add: x_def)
    show "real (R + 1) \<le> real c * golden_ratio + 1" using fl(1) by (simp add: x_def)
    show "0 < c" by (rule c0)
  qed
  have g2: "1 / 2 ^ 27 < 1 / (1 + 3 * real c)"
  proof -
    have "1 + 3 * real c < 2 ^ 27" using rc(2) by simp
    moreover have "0 < 1 + 3 * real c" using rc(1) by simp
    ultimately show ?thesis by (simp add: frac_less2)
  qed
  from g2 g1 have "1 / 2 ^ 27 < real (R + 1) - real c * golden_ratio"
    by (rule less_trans)
  then have gap: "x + 1 / 2 ^ 27 < real R + 1"
    unfolding x_def by linarith
  have "real c * d + 1 / 2 ^ 28 < real R + 1"
    using err gap by simp
  then have "(real c * d + 1 / 2 ^ 28) * 2 ^ 52 < (real R + 1) * 2 ^ 52"
    by simp
  then have "real c * d * 2 ^ 52 + 2 ^ 24 < (real R + 1) * 2 ^ 52"
    by (simp add: algebra_simps)
  then have "real (c * phi_significand + 2 ^ 24) < real ((R + 1) * 2 ^ 52)"
    by (simp only: prod of_nat_mult of_nat_power of_nat_numeral of_nat_add of_nat_1)
  then have up: "c * phi_significand + 2 ^ 24 < (R + 1) * 2 ^ 52"
    by (simp only: of_nat_less_iff)
  have "R * 2 ^ 52 \<le> round53 (c * phi_significand)"
    using p78 low by (rule round53_lower)
  moreover have "round53 (c * phi_significand) < (R + 1) * 2 ^ 52"
    using round53_upper [OF p78] up by linarith
  ultimately have "round53 (c * phi_significand) div 2 ^ 52 = R"
    by (intro div_nat_eqI) (simp_all add: mult.commute)
  then show ?thesis by (simp add: R_def)
qed

lemma mul_phi_to_size_t_small:
  assumes "0 < unat c" and "unat c < 2 ^ 25"
  shows "mul_phi_to_size_t c = Some (word_of_nat (spec_growth (unat c)))"
proof -
  have e: "round53 (unat c) = unat c"
    using assms(2) by (intro round53_exact) simp
  have p: "unat c * phi_significand < 2 ^ 78"
  proof -
    have "unat c * phi_significand < 2 ^ 25 * 2 ^ 53"
      using assms(2) by (intro mult_strict_mono) (simp_all add: phi_significand_def)
    then show ?thesis by simp
  qed
  have "round53 (unat c * phi_significand) < 2 ^ 52 * 2 ^ 64"
    using round53_upper [OF p] p by simp
  then have "round53 (unat c * phi_significand) div 2 ^ 52 < 2 ^ 64"
    by (simp only: less_mult_imp_div_less mult.commute)
  then show ?thesis
    using round53_mul_phi [OF assms] by (simp add: mul_phi_to_size_t_def e Let_def)
qed

subsection \<open>Appending\<close>

lemma glBufferData_Null: "\<exists>g'. glBufferData g t n Null = Some g'"
  by (simp add: glBufferData_def)

lemma resize_buffer_Some: "\<exists>g'. resize_buffer g this a b = Some g'"
proof -
  obtain new_id g1 where gen: "glGenBuffers g = (new_id, g1)" by (cases "glGenBuffers g")
  let ?g2 = "glBindBuffer g1 GL_COPY_WRITE_BUFFER new_id"
  obtain g3 where g3: "glBufferData ?g2 GL_COPY_WRITE_BUFFER (sint a) Null = Some g3"
    using glBufferData_Null by blast
  let ?live = "sint (scast (m_count this) * stride (m_layout this) :: size_t)"
  let ?g6 = "glBindBuffer (glCopyBufferSubData (glBindBuffer g3 GL_COPY_READ_BUFFER (m_id this))
      GL_COPY_READ_BUFFER GL_COPY_WRITE_BUFFER 0 0 ?live) GL_COPY_WRITE_BUFFER (m_id this)"
  obtain g7 where g7: "glBufferData ?g6 GL_COPY_WRITE_BUFFER (sint b) Null = Some g7"
    using glBufferData_Null by blast
  show ?thesis
    by (simp add: resize_buffer_def gen g3 g7 Let_def)
qed

lemma update_instance_client_Some:
  assumes "4 dvd length bytes" and "length bytes < 2 ^ 63"
  shows "\<exists>g'. update_instance g this index (client_span bytes) = Some g'"
proof -
  have sz: "sint (size_bytes (client_span bytes)) = int (length bytes)"
    using assms by (simp add: size_bytes_client_span sint_of_nat_64)
  have rd: "read_ptr g0 (Client bytes) (length bytes) = Some bytes" for g0
    by (simp add: read_ptr_def)
  show ?thesis
    by (simp add: update_instance_def glBufferSubData_def Let_def sz rd span_data_client_span
        split: option.splits)
qed

lemma add_instance_growth:
  assumes "m_count this \<noteq> INT32_MAX" and "4 dvd length bytes" and "length bytes < 2 ^ 63"
    and "m_capacity this < scast (m_count this + 1) * stride (m_layout this)"
    and "calc_capacity this (m_capacity this) = Some c'"
  shows "\<exists>g'. add_instance g this (client_span bytes) =
           Some (g', this\<lparr>m_capacity := c', m_count := m_count this + 1\<rparr>)"
proof -
  obtain g1 where r: "resize_buffer g this (m_capacity this) c' = Some g1"
    using resize_buffer_Some by blast
  obtain g2 where u: "update_instance g1 (this\<lparr>m_capacity := c'\<rparr>) (m_count this)
      (client_span bytes) = Some g2"
    using update_instance_client_Some [OF assms(2,3)] by blast
  show ?thesis
    using assms(1,4,5) by (simp add: add_instance_def r u)
qed

lemma add_instance_no_growth:
  assumes "m_count this \<noteq> INT32_MAX" and "4 dvd length bytes" and "length bytes < 2 ^ 63"
    and "\<not> m_capacity this < scast (m_count this + 1) * stride (m_layout this)"
  shows "\<exists>g'. add_instance g this (client_span bytes) =
           Some (g', this\<lparr>m_count := m_count this + 1\<rparr>)"
proof -
  obtain g2 where u: "update_instance g this (m_count this) (client_span bytes) = Some g2"
    using update_instance_client_Some [OF assms(2,3)] by blast
  show ?thesis
    using assms(1,4) by (simp add: add_instance_def u)
qed

lemma first_two_adds:
  assumes cap: "m_capacity this = 0" and cnt: "m_count this = 0"
    and s63: "unat (instance_size this) < 2 ^ 63"
    and b1: "4 dvd length b1" "length b1 < 2 ^ 63"
    and b2: "4 dvd length b2" "length b2 < 2 ^ 63"
  shows "\<exists>g1 g2. add_instance g this (client_span b1) =
             Some (g1, this\<lparr>m_capacity := instance_size this, m_count := 1\<rparr>) \<and>
           add_instance g1 (this\<lparr>m_capacity := instance_size this, m_count := 1\<rparr>)
               (client_span b2) =
             Some (g2, this\<lparr>m_capacity := 32 * instance_size this, m_count := 2\<rparr>)"
proof -
  let ?s = "instance_size this"
  let ?t1 = "this\<lparr>m_capacity := ?s, m_count := 1\<rparr>"
  have st: "stride (m_layout this) = ?s" by (simp add: instance_size_def)
  have nmax: "m_count this \<noteq> INT32_MAX" "m_count ?t1 \<noteq> INT32_MAX"
    by (simp_all add: cnt INT32_MAX_def)
  have two: "?s < 2 * ?s \<longleftrightarrow> ?s \<noteq> 0"
  proof -
    have "unat (2 * ?s) = 2 * unat ?s"
      using s63 by (simp add: unat_mult_lem [THEN iffD1])
    moreover have "0 < unat ?s \<longleftrightarrow> ?s \<noteq> 0"
      by (simp add: unat_gt_0)
    ultimately show ?thesis
      by (simp add: word_less_nat_alt)
  qed
  have first: "\<exists>g1. add_instance g this (client_span b1) = Some (g1, ?t1)"
  proof (cases "?s = 0")
    case True
    then have "\<not> m_capacity this < scast (m_count this + 1) * stride (m_layout this)"
      by (simp add: cap cnt st)
    moreover have "this\<lparr>m_capacity := 0\<rparr> = this"
      using cap by (cases this) simp
    ultimately show ?thesis
      using add_instance_no_growth [OF nmax(1) b1, of g] True cnt by simp
  next
    case False
    then have g: "m_capacity this < scast (m_count this + 1) * stride (m_layout this)"
      by (simp add: cap cnt st word_greater_zero_iff)
    have c: "calc_capacity this (m_capacity this) = Some ?s"
      by (simp add: calc_capacity_def cap)
    from add_instance_growth [OF nmax(1) b1 g c, of g] show ?thesis
      by (simp add: cnt)
  qed
  then obtain g1 where 1: "add_instance g this (client_span b1) = Some (g1, ?t1)" ..
  have i1: "instance_size ?t1 = ?s" by (simp add: instance_size_def)
  have second: "\<exists>g2. add_instance g1 ?t1 (client_span b2) =
      Some (g2, this\<lparr>m_capacity := 32 * ?s, m_count := 2\<rparr>)"
  proof (cases "?s = 0")
    case True
    then have "\<not> m_capacity ?t1 < scast (m_count ?t1 + 1) * stride (m_layout ?t1)"
      by (simp add: st)
    from add_instance_no_growth [OF nmax(2) b2 this, of g1] show ?thesis
      using True by simp
  next
    case False
    then have g: "m_capacity ?t1 < scast (m_count ?t1 + 1) * stride (m_layout ?t1)"
      using two by (simp add: st)
    have c: "calc_capacity ?t1 (m_capacity ?t1) = Some (32 * ?s)"
      using False by (simp add: calc_capacity_def i1)
    from add_instance_growth [OF nmax(2) b2 g c, of g1] show ?thesis
      by simp
  qed
  with 1 show ?thesis by blast
qed

subsection \<open>The claim about the growth policy\<close>

lemma round53_at_counterexample:
  "round53 (102334155 * phi_significand) = 5555947581734912 * 2 ^ 27"
proof -
  have b: "bit_length 745706661307554192273720 = Suc 79"
    by (rule bit_length_eq) simp_all
  show ?thesis
    by (simp add: round53_def phi_significand_def b Let_def)
qed

lemma spec_growth_at_counterexample: "spec_growth 102334155 = 165580140"
proof -
  have lo: "228826125 / 102334155 \<le> sqrt 5"
    by (rule real_le_rsqrt) (simp add: power2_eq_square)
  have hi: "sqrt 5 < 228826127 / 102334155"
    by (rule real_less_lsqrt) (simp_all add: power2_eq_square)
  have "\<lfloor>102334155 * golden_ratio\<rfloor> = 165580140"
  proof (rule floor_unique)
    show "of_int 165580140 \<le> 102334155 * golden_ratio"
      using lo by (simp add: golden_ratio_def field_simps)
    show "102334155 * golden_ratio < of_int 165580140 + 1"
      using hi by (simp add: golden_ratio_def field_simps)
  qed
  then show ?thesis by (simp add: spec_growth_def)
qed

text \<open>
  C1, as the claim states it, fails: the code multiplies in double precision, and the
  double nearest to the golden ratio is a little larger than the golden ratio. For a
  store with records of 4 bytes and the capacity \<open>c = 102334155\<close> (which is neither 0
  nor the record size), \<open>calc_capacity(c)\<close> is 165580141, but \<open>floor (c * phi)\<close> is
  165580140.
\<close>

theorem calc_capacity_floor_counterexample:
  "calc_capacity store_three 102334155 = Some 165580141 \<and>
   spec_growth 102334155 = 165580140 \<and>
   (102334155 :: size_t) \<noteq> 0 \<and> 102334155 \<noteq> instance_size store_three"
proof -
  have s: "instance_size store_three = 4"
    by (simp add: instance_size_def store_three_def stride_layout_f32)
  have "mul_phi_to_size_t 102334155 = Some 165580141"
    by (simp add: mul_phi_to_size_t_def round53_exact round53_at_counterexample Let_def)
  then show ?thesis
    by (simp add: calc_capacity_def s spec_growth_at_counterexample)
qed

text \<open>
  C1, amended. For a store with record size \<open>s = instance_size()\<close>:
  \<open>calc_capacity(0) = s\<close> and \<open>calc_capacity(s) = 32 * s\<close> (in \<^verbatim>\<open>size_t\<close>
  arithmetic); for every other capacity \<open>c\<close> the result is the truncated
  double-precision product of \<open>c\<close> and \<^verbatim>\<open>std::numbers::phi\<close>, and that is
  \<open>floor (c * phi)\<close> for every \<open>c\<close> below \<open>2^25\<close>. Starting from capacity 0 and
  count 0, with \<open>s\<close> below \<open>2^63\<close> and records that are whole floats, the first
  \<open>add_instance\<close> returns with capacity exactly \<open>s\<close> and the second with capacity
  exactly \<open>32 * s\<close>; and whenever an \<open>add_instance\<close> finds
  \<open>(count + 1) * s > capacity\<close>, it returns with the capacity that \<open>calc_capacity\<close>
  gives for the prior one.
\<close>

theorem calc_capacity_growth:
  "calc_capacity this 0 = Some (instance_size this) \<and>
   calc_capacity this (instance_size this) = Some (32 * instance_size this) \<and>
   (c \<noteq> 0 \<and> c \<noteq> instance_size this \<longrightarrow> calc_capacity this c = mul_phi_to_size_t c) \<and>
   (c \<noteq> 0 \<and> c \<noteq> instance_size this \<and> unat c < 2 ^ 25 \<longrightarrow>
      calc_capacity this c = Some (word_of_nat (spec_growth (unat c)))) \<and>
   (capacity this = 0 \<and> instance_count this = 0 \<and> unat (instance_size this) < 2 ^ 63 \<and>
    4 dvd length b1 \<and> length b1 < 2 ^ 63 \<and> 4 dvd length b2 \<and> length b2 < 2 ^ 63 \<longrightarrow>
      (\<exists>g1 this1 g2 this2.
         add_instance g this (client_span b1) = Some (g1, this1) \<and>
         capacity this1 = instance_size this \<and> instance_count this1 = 1 \<and>
         add_instance g1 this1 (client_span b2) = Some (g2, this2) \<and>
         capacity this2 = 32 * instance_size this \<and> instance_count this2 = 2)) \<and>
   (instance_count this \<noteq> INT32_MAX \<and> 4 dvd length b1 \<and> length b1 < 2 ^ 63 \<and>
    capacity this < scast (instance_count this + 1) * instance_size this \<and>
    calc_capacity this (capacity this) = Some c' \<longrightarrow>
      (\<exists>g1 this1. add_instance g this (client_span b1) = Some (g1, this1) \<and>
         capacity this1 = c' \<and> instance_count this1 = instance_count this + 1))"
proof (intro conjI impI)
  show "calc_capacity this 0 = Some (instance_size this)"
    by (simp add: calc_capacity_def)
  show "calc_capacity this (instance_size this) = Some (32 * instance_size this)"
    by (simp add: calc_capacity_def)
  show "calc_capacity this c = mul_phi_to_size_t c"
    if "c \<noteq> 0 \<and> c \<noteq> instance_size this"
    using that by (simp add: calc_capacity_def)
  show "calc_capacity this c = Some (word_of_nat (spec_growth (unat c)))"
    if "c \<noteq> 0 \<and> c \<noteq> instance_size this \<and> unat c < 2 ^ 25"
  proof -
    from that have "0 < unat c" by (simp add: unat_gt_0)
    with that show ?thesis
      by (simp add: calc_capacity_def mul_phi_to_size_t_small)
  qed
  show "\<exists>g1 this1 g2 this2.
         add_instance g this (client_span b1) = Some (g1, this1) \<and>
         capacity this1 = instance_size this \<and> instance_count this1 = 1 \<and>
         add_instance g1 this1 (client_span b2) = Some (g2, this2) \<and>
         capacity this2 = 32 * instance_size this \<and> instance_count this2 = 2"
    if h: "capacity this = 0 \<and> instance_count this = 0 \<and> unat (instance_size this) < 2 ^ 63 \<and>
      4 dvd length b1 \<and> length b1 < 2 ^ 63 \<and> 4 dvd length b2 \<and> length b2 < 2 ^ 63"
  proof -
    from h have "m_capacity this = 0" "m_count this = 0" "unat (instance_size this) < 2 ^ 63"
      "4 dvd length b1" "length b1 < 2 ^ 63" "4 dvd length b2" "length b2 < 2 ^ 63"
      by (simp_all add: capacity_def instance_count_def)
    from first_two_adds [OF this, of g] obtain g1 g2 where
      "add_instance g this (client_span b1) =
         Some (g1, this\<lparr>m_capacity := instance_size this, m_count := 1\<rparr>)"
      "add_instance g1 (this\<lparr>m_capacity := instance_size this, m_count := 1\<rparr>) (client_span b2) =
         Some (g2, this\<lparr>m_capacity := 32 * instance_size this, m_count := 2\<rparr>)"
      by blast
    then show ?thesis
      by (intro exI conjI) (assumption | simp add: capacity_def instance_count_def)+
  qed
  show "\<exists>g1 this1. add_instance g this (client_span b1) = Some (g1, this1) \<and>
         capacity this1 = c' \<and> instance_count this1 = instance_count this + 1"
    if h: "instance_count this \<noteq> INT32_MAX \<and> 4 dvd length b1 \<and> length b1 < 2 ^ 63 \<and>
      capacity this < scast (instance_count this + 1) * instance_size this \<and>
      calc_capacity this (capacity this) = Some c'"
  proof -
    from h have "m_count this \<noteq> INT32_MAX" "4 dvd length b1" "length b1 < 2 ^ 63"
      "m_capacity this < scast (m_count this + 1) * stride (m_layout this)"
      "calc_capacity this (m_capacity this) = Some c'"
      by (simp_all add: capacity_def instance_count_def instance_size_def)
    from add_instance_growth [OF this, of g] obtain g1 where
      "add_instance g this (client_span b1) =
         Some (g1, this\<lparr>m_capacity := c', m_count := m_count this + 1\<rparr>)" ..
    then show ?thesis
      by (intro exI conjI) (assumption | simp add: capacity_def instance_count_def)+
  qed
qed

theorem calc_capacity_growth_witness:
  "((128 :: size_t) \<noteq> 0 \<and> 128 \<noteq> instance_size store_empty \<and> unat (128 :: size_t) < 2 ^ 25) \<and>
   calc_capacity store_empty 128 = Some 207 \<and>
   calc_capacity store_empty 128 = Some (word_of_nat (spec_growth (unat (128 :: size_t)))) \<and>
   (capacity store_empty = 0 \<and> instance_count store_empty = 0 \<and>
    unat (instance_size store_empty) < 2 ^ 63 \<and> 4 dvd length r0 \<and> 4 dvd length r1) \<and>
   (\<exists>g1 this1 g2 this2.
      add_instance gl_one store_empty (client_span r0) = Some (g1, this1) \<and>
      capacity this1 = 4 \<and>
      add_instance g1 this1 (client_span r1) = Some (g2, this2) \<and>
      capacity this2 = 128) \<and>
   (instance_count store_empty \<noteq> INT32_MAX \<and>
    capacity store_empty < scast (instance_count store_empty + 1) * instance_size store_empty \<and>
    calc_capacity store_empty (capacity store_empty) = Some 4) \<and>
   (\<exists>g1 this1. add_instance gl_one store_empty (client_span r0) = Some (g1, this1) \<and>
      capacity this1 = 4 \<and> instance_count this1 = 1)"
proof -
  have s: "instance_size store_empty = 4"
    by (simp add: instance_size_def store_empty_def stride_layout_f32)
  have c0: "capacity store_empty = 0" "instance_count store_empty = 0"
    by (simp_all add: capacity_def instance_count_def store_empty_def)
  have l: "length r0 = 4" "length r1 = 4" by (simp_all add: r0_def r1_def)
  have d: "4 dvd length r0" "4 dvd length r1" by (simp_all add: l)
  have h1: "(128 :: size_t) \<noteq> 0 \<and> 128 \<noteq> instance_size store_empty \<and> unat (128 :: size_t) < 2 ^ 25"
    by (simp add: s)
  have b: "bit_length 932733090407273472 = Suc 59"
    by (rule bit_length_eq) simp_all
  have v: "calc_capacity store_empty 128 = Some 207"
    by (simp add: calc_capacity_def s mul_phi_to_size_t_def round53_def phi_significand_def
        b Let_def)
  have h2: "capacity store_empty = 0 \<and> instance_count store_empty = 0 \<and>
      unat (instance_size store_empty) < 2 ^ 63 \<and>
      4 dvd length r0 \<and> length r0 < 2 ^ 63 \<and> 4 dvd length r1 \<and> length r1 < 2 ^ 63"
    by (simp add: c0 s l)
  have h3: "instance_count store_empty \<noteq> INT32_MAX \<and> 4 dvd length r0 \<and> length r0 < 2 ^ 63 \<and>
      capacity store_empty < scast (instance_count store_empty + 1) * instance_size store_empty \<and>
      calc_capacity store_empty (capacity store_empty) = Some 4"
    by (simp add: c0 s l INT32_MAX_def calc_capacity_def)
  note t = calc_capacity_growth [of store_empty 128 r0 r1 gl_one 4]
  from t h1 have a: "calc_capacity store_empty 128 =
      Some (word_of_nat (spec_growth (unat (128 :: size_t))))" by blast
  from t h2 have "\<exists>g1 this1 g2 this2.
      add_instance gl_one store_empty (client_span r0) = Some (g1, this1) \<and>
      capacity this1 = instance_size store_empty \<and> instance_count this1 = 1 \<and>
      add_instance g1 this1 (client_span r1) = Some (g2, this2) \<and>
      capacity this2 = 32 * instance_size store_empty \<and> instance_count this2 = 2" by blast
  then have b2: "\<exists>g1 this1 g2 this2.
      add_instance gl_one store_empty (client_span r0) = Some (g1, this1) \<and>
      capacity this1 = 4 \<and>
      add_instance g1 this1 (client_span r1) = Some (g2, this2) \<and>
      capacity this2 = 128"
    by (auto simp add: s)
  from t h3 have "\<exists>g1 this1. add_instance gl_one store_empty (client_span r0) = Some (g1, this1) \<and>
      capacity this1 = 4 \<and> instance_count this1 = instance_count store_empty + 1" by blast
  then have b3: "\<exists>g1 this1. add_instance gl_one store_empty (client_span r0) = Some (g1, this1) \<and>
      capacity this1 = 4 \<and> instance_count this1 = 1"
    by (simp add: c0)
  from h1 v a h2 b2 h3 b3 show ?thesis by blast
qed

subsection \<open>Bounds of the growth step\<close>

lemma bit_length_lower: "0 < n \<Longrightarrow> 2 ^ (bit_length n - 1) \<le> n"
proof -
  assume n: "0 < n"
  show ?thesis
  proof (rule ccontr)
    assume "\<not> 2 ^ (bit_length n - 1) \<le> n"
    then have "n < 2 ^ (bit_length n - 1)" by simp
    then have "bit_length n \<le> bit_length n - 1" by (rule bit_length_less)
    moreover have "0 < bit_length n" using n by (simp add: bit_length.simps [of n])
    ultimately show False by simp
  qed
qed

text \<open>Rounding to 53 bits moves a number by at most one part in \<open>2^52\<close>.\<close>

lemma round53_near:
  "p \<le> round53 p + p div 2 ^ 52 \<and> round53 p \<le> p + p div 2 ^ 52"
proof (cases "p < 2 ^ 53")
  case True
  then show ?thesis by (simp add: round53_def)
next
  case False
  define e where "e = bit_length p - 53"
  define q where "q = p div 2 ^ e"
  define r where "r = p mod 2 ^ e"
  from False have p0: "0 < p" by simp
  from False have "53 < bit_length p" by (intro bit_length_greater) simp
  then have be: "bit_length p - 1 = e + 52" by (simp add: e_def)
  have "2 ^ (bit_length p - 1) \<le> p" using p0 by (rule bit_length_lower)
  then have "(2 :: nat) ^ e * 2 ^ 52 \<le> p" by (simp only: be power_add)
  then have ulp: "2 ^ e \<le> p div 2 ^ 52"
    by (simp add: less_eq_div_iff_mult_less_eq)
  have p: "p = q * 2 ^ e + r" unfolding q_def r_def by (rule div_mult_mod_eq [symmetric])
  have r: "r < 2 ^ e" by (simp add: r_def)
  have "round53 p = q * 2 ^ e \<or> round53 p = (q + 1) * 2 ^ e"
    using False
    by (simp add: round53_def Let_def e_def [symmetric] q_def [symmetric] r_def [symmetric])
  then show ?thesis
  proof
    assume "round53 p = q * 2 ^ e"
    with p r ulp show ?thesis by simp
  next
    assume "round53 p = (q + 1) * 2 ^ e"
    with p r ulp show ?thesis by simp
  qed
qed

lemma round53_near_real:
  "real p * (1 - 1 / 2 ^ 52) \<le> real (round53 p)"
  "real (round53 p) \<le> real p * (1 + 1 / 2 ^ 52)"
proof -
  have d: "real (p div 2 ^ 52) \<le> real p / 2 ^ 52"
    using of_nat_div_le_of_nat [of p "2 ^ 52", where ?'a = real] by simp
  from round53_near [of p] have "real p \<le> real (round53 p + p div 2 ^ 52)"
    and "real (round53 p) \<le> real (p + p div 2 ^ 52)"
    by (simp_all only: of_nat_le_iff)
  then have a: "real p \<le> real (round53 p) + real (p div 2 ^ 52)"
    and b: "real (round53 p) \<le> real p + real (p div 2 ^ 52)"
    by simp_all
  from a d show "real p * (1 - 1 / 2 ^ 52) \<le> real (round53 p)"
    by (simp add: algebra_simps)
  from b d show "real (round53 p) \<le> real p * (1 + 1 / 2 ^ 52)"
    by (simp add: algebra_simps)
qed

text \<open>
  The truncated double product of a capacity and \<^verbatim>\<open>phi\<close> lies between one and a
  half times and twice the capacity.
\<close>

lemma mul_phi_bounds:
  assumes "12 \<le> c"
  shows "c + c div 2 \<le> round53 (round53 c * phi_significand) div 2 ^ 52"
    and "round53 (round53 c * phi_significand) div 2 ^ 52 \<le> 2 * c"
proof -
  define d where "d = round53 c"
  define P where "P = round53 (d * phi_significand)"
  define K :: real where "K = 2 ^ 52"
  define m :: real where "m = real phi_significand / K"
  define lo :: real where "lo = 1 - 1 / 2 ^ 52"
  define hi :: real where "hi = 1 + 1 / 2 ^ 52"
  have K: "0 \<le> K" "K \<noteq> 0" by (simp_all add: K_def)
  have m: "1.618 \<le> m" "m \<le> 1.6181"
    by (simp_all add: m_def K_def phi_significand_def)
  have lo: "0.9999 \<le> lo" "0 \<le> lo" and hi: "hi \<le> 1.0001" "0 \<le> hi"
    by (simp_all add: lo_def hi_def)
  have c0: "0 \<le> real c" by simp
  have d0: "0 \<le> real d" by simp
  have m0: "0 \<le> m" using m(1) by simp
  have d: "real c * lo \<le> real d" "real d \<le> real c * hi"
    unfolding d_def lo_def hi_def by (rule round53_near_real)+
  have pm: "real (d * phi_significand) = real d * m * K"
    using K(2) by (simp add: m_def)
  have P: "real d * m * K * lo \<le> real P" "real P \<le> real d * m * K * hi"
    unfolding P_def lo_def hi_def using round53_near_real [of "d * phi_significand"]
    by (simp_all only: pm)
  have swap: "\<And>x. real d * m * K * x = real d * m * x * K" by simp
  text \<open>Lower bound.\<close>
  have "real c * 0.9999 \<le> real c * lo" using lo(1) c0 by (rule mult_left_mono)
  with d(1) have d1: "real c * 0.9999 \<le> real d" by simp
  have dm: "real c * 0.9999 * 1.618 \<le> real d * m"
    by (rule mult_mono [OF d1 m(1) d0]) simp
  have dm0: "0 \<le> real d * m" using d0 m0 by simp
  have dml: "real c * 0.9999 * 1.618 * 0.9999 \<le> real d * m * lo"
    by (rule mult_mono [OF dm lo(1) dm0]) simp
  have "real c * 1.6 \<le> real c * 0.9999 * 1.618 * 0.9999"
    using c0 by simp
  from this dml have "real c * 1.6 \<le> real d * m * lo" by (rule order_trans)
  then have "real c * 1.6 * K \<le> real d * m * lo * K"
    using K(1) by (rule mult_right_mono)
  with P(1) have low: "real c * 1.6 * K \<le> real P" by (simp only: swap)
  have half: "real (c div 2) \<le> real c / 2"
    using of_nat_div_le_of_nat [of c 2, where ?'a = real] by simp
  have "12 \<le> real c" using assms by simp
  with half have "real (c + c div 2) + 1 \<le> real c * 1.6" by simp
  then have "(real (c + c div 2) + 1) * K \<le> real c * 1.6 * K"
    using K(1) by (rule mult_right_mono)
  from this low have "(real (c + c div 2) + 1) * K \<le> real P" by (rule order_trans)
  moreover have "(real (c + c div 2) + 1) * K = real ((c + c div 2 + 1) * 2 ^ 52)"
    by (simp add: K_def)
  ultimately have "real ((c + c div 2 + 1) * 2 ^ 52) \<le> real P" by simp
  then have "(c + c div 2 + 1) * 2 ^ 52 \<le> P" by (simp only: of_nat_le_iff)
  then have "c + c div 2 + 1 \<le> P div 2 ^ 52"
    by (simp add: less_eq_div_iff_mult_less_eq)
  then show "c + c div 2 \<le> round53 (round53 c * phi_significand) div 2 ^ 52"
    by (simp add: P_def d_def)
  text \<open>Upper bound.\<close>
  have "real c * hi \<le> real c * 1.0001" using hi(1) c0 by (rule mult_left_mono)
  with d(2) have d2: "real d \<le> real c * 1.0001" by simp
  have c2: "0 \<le> real c * 1.0001" using c0 by simp
  have dm2: "real d * m \<le> real c * 1.0001 * 1.6181"
    by (rule mult_mono [OF d2 m(2) c2 m0])
  have c3: "0 \<le> real c * 1.0001 * 1.6181" using c0 by simp
  have dmh: "real d * m * hi \<le> real c * 1.0001 * 1.6181 * 1.0001"
    by (rule mult_mono [OF dm2 hi(1) c3 hi(2)])
  have "real c * 1.0001 * 1.6181 * 1.0001 \<le> real c * 2"
    using c0 by simp
  with dmh have "real d * m * hi \<le> real c * 2" by (rule order_trans)
  then have "real d * m * hi * K \<le> real c * 2 * K"
    using K(1) by (rule mult_right_mono)
  with P(2) have "real P \<le> real c * 2 * K" by (simp only: swap)
  moreover have "real c * 2 * K = real (2 * c * 2 ^ 52)" by (simp add: K_def)
  ultimately have "real P \<le> real (2 * c * 2 ^ 52)" by simp
  then have "P \<le> 2 * c * 2 ^ 52" by (simp only: of_nat_le_iff)
  then have "P div 2 ^ 52 \<le> 2 * c * 2 ^ 52 div 2 ^ 52" by (rule div_le_mono)
  then have "P div 2 ^ 52 \<le> 2 * c" by simp
  then show "round53 (round53 c * phi_significand) div 2 ^ 52 \<le> 2 * c"
    by (simp add: P_def d_def)
qed

subsection \<open>Appending from an empty store\<close>

lemma sint_succ_int32:
  assumes "0 \<le> sint (x :: int32)" and "x \<noteq> INT32_MAX"
  shows "sint (x + 1) = sint x + 1" and "sint x < 2147483647"
proof -
  have "sint x < 2 ^ 31" using sint_lt [of x] by simp
  moreover have "sint x \<noteq> 2147483647"
  proof
    assume "sint x = 2147483647"
    then have "sint x = sint INT32_MAX" by (simp add: INT32_MAX_def)
    then have "x = INT32_MAX" by (rule signed_word_eqI)
    with assms(2) show False by simp
  qed
  ultimately show lt: "sint x < 2147483647" by simp
  have "sint (x + 1) = signed_take_bit 31 (sint x + 1)"
    by (simp add: sint_word_ariths)
  also have "\<dots> = sint x + 1"
    using assms(1) lt by (intro signed_take_bit_int_eq_self) simp_all
  finally show "sint (x + 1) = sint x + 1" .
qed

lemma unat_of_nat_mult_64:
  assumes "k * unat (w :: size_t) < 2 ^ 64"
  shows "unat (word_of_nat k * w) = k * unat w"
proof -
  have "(word_of_nat (k * unat w) :: size_t) = word_of_nat k * w" by simp
  moreover have "k * unat w < 2 ^ LENGTH(64)" using assms by simp
  ultimately show ?thesis by (rule of_nat_inverse)
qed


lemma mul_phi_to_size_t_bounds:
  assumes "12 \<le> unat c" and "unat c < 2 ^ 63"
  shows "\<exists>t. mul_phi_to_size_t c = Some t \<and> unat c + unat c div 2 \<le> unat t \<and>
           unat t \<le> 2 * unat c"
proof -
  define n where "n = round53 (round53 (unat c) * phi_significand) div 2 ^ 52"
  have lo: "unat c + unat c div 2 \<le> n" and hi: "n \<le> 2 * unat c"
    unfolding n_def using assms(1) by (rule mul_phi_bounds)+
  from hi assms(2) have n64: "n < 2 ^ 64" by simp
  then have u: "unat (word_of_nat n :: size_t) = n"
    by (intro of_nat_inverse) simp_all
  have "mul_phi_to_size_t c = Some (word_of_nat n)"
    using n64 by (simp add: mul_phi_to_size_t_def Let_def n_def)
  with lo hi u show ?thesis by simp
qed

lemma add_instance_growth_inv:
  assumes inv: "growth_inv this"
    and s0: "0 < unat (instance_size this)" and s25: "unat (instance_size this) < 2 ^ 25"
    and nmax: "m_count this \<noteq> INT32_MAX"
    and b: "4 dvd length bytes" "length bytes < 2 ^ 63"
  shows "\<exists>g' this'. add_instance g this (client_span bytes) = Some (g', this') \<and>
           growth_inv this' \<and> m_count this' = m_count this + 1 \<and>
           m_layout this' = m_layout this"
proof -
  define s where "s = unat (instance_size this)"
  define c where "c = nat (sint (m_count this))"
  define cap where "cap = unat (m_capacity this)"
  define ok where "ok = (\<lambda>n k. n = 0 \<and> k = 0 \<or> n = s \<and> k \<le> 1 \<or>
      32 * s \<le> n \<and> k * s \<le> n \<and> n \<le> 2 * k * s + 32 * s)"
  have st: "stride (m_layout this) = instance_size this" by (simp add: instance_size_def)
  have c0: "0 \<le> sint (m_count this)" and ok: "ok cap c"
    using inv by (simp_all add: growth_inv_def Let_def ok_def s_def c_def cap_def)
  have sc: "sint (m_count this + 1) = int (c + 1)" and c31: "c < 2147483647"
    using sint_succ_int32 [OF c0 nmax] c0 by (simp_all add: c_def)
  have sp: "0 < s" and s25': "s < 2 ^ 25" using s0 s25 by (simp_all add: s_def)
  have "(c + 1) * s < 2 ^ 31 * 2 ^ 25"
    using c31 s25' mult_le_less_imp_less [of "c + 1" "2 ^ 31" s "2 ^ 25"] by simp
  then have need64: "(c + 1) * s < 2 ^ 64" by simp
  have "(scast (m_count this + 1) :: size_t) = word_of_nat (c + 1)"
  proof -
    have "0 \<le> sint (m_count this + 1)" by (simp only: sc of_nat_0_le_iff)
    then have "(scast (m_count this + 1) :: size_t) = word_of_nat (nat (sint (m_count this + 1)))"
      by (rule scast_nonneg)
    then show ?thesis by (simp only: sc nat_int)
  qed
  then have need: "unat (scast (m_count this + 1) * stride (m_layout this) :: size_t) = (c + 1) * s"
    using need64 by (simp only: st s_def unat_of_nat_mult_64)
  have lt: "m_capacity this < scast (m_count this + 1) * stride (m_layout this) \<longleftrightarrow>
      cap < (c + 1) * s"
    by (simp only: word_less_nat_alt need cap_def)
  have after: "growth_inv (this\<lparr>m_capacity := w, m_count := m_count this + 1\<rparr>)"
    if "ok (unat w) (c + 1)" for w
  proof -
    let ?t = "this\<lparr>m_capacity := w, m_count := m_count this + 1\<rparr>"
    have 1: "unat (instance_size ?t) = s" by (simp add: instance_size_def s_def)
    have 2: "sint (m_count ?t) = int (c + 1)" using sc by simp
    have 3: "unat (m_capacity ?t) = unat w" by simp
    have 4: "nat (int (c + 1)) = c + 1" by (rule nat_int)
    have 5: "0 \<le> int (c + 1)" by (rule of_nat_0_le_iff)
    from that show ?thesis
      unfolding growth_inv_def Let_def 1 2 3 4 ok_def using 5 by blast
  qed
  show ?thesis
  proof (cases "cap < (c + 1) * s")
    case False
    then have ng: "\<not> m_capacity this < scast (m_count this + 1) * stride (m_layout this)"
      using lt by blast
    from add_instance_no_growth [OF nmax b ng, of g] obtain g' where
      a: "add_instance g this (client_span bytes) = Some (g', this\<lparr>m_count := m_count this + 1\<rparr>)" ..
    have e: "this\<lparr>m_count := m_count this + 1\<rparr> =
        this\<lparr>m_capacity := m_capacity this, m_count := m_count this + 1\<rparr>"
      by (cases this) simp
    have "ok cap (c + 1)"
      using ok False sp unfolding ok_def by (auto simp add: algebra_simps)
    then have "growth_inv (this\<lparr>m_count := m_count this + 1\<rparr>)"
      unfolding e cap_def by (rule after)
    with a show ?thesis by simp
  next
    case True
    then have gr: "m_capacity this < scast (m_count this + 1) * stride (m_layout this)"
      using lt by blast
    have "\<exists>w. calc_capacity this (m_capacity this) = Some w \<and> ok (unat w) (c + 1)"
    proof -
      consider (zero) "cap = 0" "c = 0" | (one) "cap = s" "c \<le> 1" "cap \<noteq> 0"
        | (more) "32 * s \<le> cap" "c * s \<le> cap" "cap \<le> 2 * c * s + 32 * s" "cap \<noteq> s" "cap \<noteq> 0"
        using ok sp unfolding ok_def by (cases "cap = s"; cases "cap = 0") auto
      then show ?thesis
      proof cases
        case zero
        then have "m_capacity this = 0" by (simp add: cap_def unat_eq_0)
        then have "calc_capacity this (m_capacity this) = Some (instance_size this)"
          by (simp add: calc_capacity_def)
        moreover have "ok (unat (instance_size this)) (c + 1)"
          using zero by (simp add: ok_def s_def)
        ultimately show ?thesis by blast
      next
        case one
        then have "unat (m_capacity this) = unat (instance_size this)"
          and "unat (m_capacity this) \<noteq> 0"
          unfolding cap_def s_def by blast+
        then have "m_capacity this = instance_size this" "m_capacity this \<noteq> 0"
          by (simp_all only: word_unat_eq_iff [symmetric] unat_eq_0 not_False_eq_True)
        then have "calc_capacity this (m_capacity this) = Some (instance_size this * 32)"
          by (simp add: calc_capacity_def)
        moreover have "unat (instance_size this * 32) = 32 * s"
        proof -
          have "32 * unat (instance_size this) < 2 ^ 64" using s25 by simp
          then have "unat (word_of_nat 32 * instance_size this) = 32 * unat (instance_size this)"
            by (rule unat_of_nat_mult_64)
          then show ?thesis by (simp add: s_def mult.commute)
        qed
        moreover have "ok (32 * s) (c + 1)"
          using one by (simp add: ok_def)
        ultimately show ?thesis by simp
      next
        case more
        then have "unat (m_capacity this) \<noteq> unat (instance_size this)"
          and "unat (m_capacity this) \<noteq> 0"
          unfolding cap_def s_def by blast+
        then have ne: "m_capacity this \<noteq> instance_size this" "m_capacity this \<noteq> 0"
          by auto
        have "c * s \<le> 2 ^ 31 * 2 ^ 25"
          using c31 s25' mult_le_mono [of c "2 ^ 31" s "2 ^ 25"] by simp
        with more(3) s25' have cap63: "cap < 2 ^ 63" by simp
        have "32 * 1 \<le> 32 * s" using sp by (intro mult_le_mono) simp_all
        with more(1) have cap12: "12 \<le> cap" by simp
        from mul_phi_to_size_t_bounds [of "m_capacity this"] cap12 cap63
        obtain t where t: "mul_phi_to_size_t (m_capacity this) = Some t"
          "cap + cap div 2 \<le> unat t" "unat t \<le> 2 * cap"
          unfolding cap_def by blast
        have "calc_capacity this (m_capacity this) = Some t"
          using ne t(1) by (simp add: calc_capacity_def)
        moreover have "ok (unat t) (c + 1)"
        proof -
          have "s \<le> cap div 2" using more(1) by simp
          with more(2) t(2) have "(c + 1) * s \<le> unat t" by (simp add: algebra_simps)
          moreover have "32 * s \<le> unat t" using more(1) t(2) by simp
          moreover have "unat t \<le> 2 * (c + 1) * s + 32 * s"
            using t(3) True by (simp add: algebra_simps)
          ultimately show ?thesis by (simp add: ok_def)
        qed
        ultimately show ?thesis by blast
      qed
    qed
    then obtain w where w: "calc_capacity this (m_capacity this) = Some w" "ok (unat w) (c + 1)"
      by blast
    from add_instance_growth [OF nmax b gr w(1), of g] obtain g' where
      "add_instance g this (client_span bytes) =
         Some (g', this\<lparr>m_capacity := w, m_count := m_count this + 1\<rparr>)" ..
    moreover have "growth_inv (this\<lparr>m_capacity := w, m_count := m_count this + 1\<rparr>)"
      using w(2) by (rule after)
    ultimately show ?thesis by simp
  qed
qed


lemma growth_inv_capacity_covers:
  assumes "growth_inv this"
  shows "capacity_covers this"
proof -
  define s where "s = unat (instance_size this)"
  define c where "c = nat (sint (m_count this))"
  define cap where "cap = unat (m_capacity this)"
  from assms have c0: "0 \<le> sint (m_count this)"
    and ok: "cap = 0 \<and> c = 0 \<or> cap = s \<and> c \<le> 1 \<or>
      32 * s \<le> cap \<and> c * s \<le> cap \<and> cap \<le> 2 * c * s + 32 * s"
    by (simp_all add: growth_inv_def Let_def s_def c_def cap_def)
  from ok have "c * s \<le> cap" by (auto simp add: le_Suc_eq)
  then have "int c * int s \<le> int cap"
    by (simp only: of_nat_mult [symmetric] of_nat_le_iff)
  moreover have "int c = sint (m_count this)" using c0 by (simp add: c_def)
  ultimately show ?thesis
    by (simp add: capacity_covers_def instance_count_def capacity_def s_def cap_def)
qed

lemma add_instances_growth_inv:
  assumes "growth_inv this"
    and "0 < unat (instance_size this)" and "unat (instance_size this) < 2 ^ 25"
    and "\<forall>r \<in> set rs. 4 dvd length r \<and> length r < 2 ^ 63"
    and "sint (m_count this) + int (length rs) < 2 ^ 31"
  shows "\<exists>g' this'. add_instances g this rs = Some (g', this') \<and> growth_inv this' \<and>
           sint (m_count this') = sint (m_count this) + int (length rs) \<and>
           m_layout this' = m_layout this"
  using assms
proof (induction rs arbitrary: g this)
  case Nil
  then show ?case by simp
next
  case (Cons r rs)
  from Cons.prems(1) have c0: "0 \<le> sint (m_count this)"
    by (simp add: growth_inv_def Let_def)
  have nmax: "m_count this \<noteq> INT32_MAX"
  proof
    assume "m_count this = INT32_MAX"
    then have "sint (m_count this) = 2147483647" by (simp add: INT32_MAX_def)
    with Cons.prems(5) show False by simp
  qed
  from Cons.prems(4) have r: "4 dvd length r" "length r < 2 ^ 63" by simp_all
  from add_instance_growth_inv [OF Cons.prems(1-3) nmax r, of g]
  obtain g1 this1 where 1: "add_instance g this (client_span r) = Some (g1, this1)"
    "growth_inv this1" "m_count this1 = m_count this + 1" "m_layout this1 = m_layout this"
    by blast
  have cnt: "sint (m_count this1) = sint (m_count this) + 1"
    using sint_succ_int32(1) [OF c0 nmax] by (simp only: 1(3))
  have sz: "instance_size this1 = instance_size this"
    by (simp add: instance_size_def 1(4))
  have "\<exists>g' this'. add_instances g1 this1 rs = Some (g', this') \<and> growth_inv this' \<and>
      sint (m_count this') = sint (m_count this1) + int (length rs) \<and>
      m_layout this' = m_layout this1"
  proof (rule Cons.IH)
    show "growth_inv this1" by (rule 1(2))
    show "0 < unat (instance_size this1)" "unat (instance_size this1) < 2 ^ 25"
      using Cons.prems(2,3) by (simp_all only: sz)
    show "\<forall>r \<in> set rs. 4 dvd length r \<and> length r < 2 ^ 63"
      using Cons.prems(4) by simp
    show "sint (m_count this1) + int (length rs) < 2 ^ 31"
      using Cons.prems(5) by (simp add: cnt)
  qed
  then obtain g' this' where 2: "add_instances g1 this1 rs = Some (g', this')"
    "growth_inv this'" "sint (m_count this') = sint (m_count this1) + int (length rs)"
    "m_layout this' = m_layout this1"
    by blast
  have "add_instances g this (r # rs) = Some (g', this')"
    by (simp add: 1(1) 2(1))
  moreover have "sint (m_count this') = sint (m_count this) + int (length (r # rs))"
    by (simp add: 2(3) cnt)
  moreover have "m_layout this' = m_layout this" by (simp only: 2(4) 1(4))
  ultimately show ?case using 2(2) by blast
qed

text \<open>
  Appending to a store that was created without initial data: for records of
  \<open>instance_size()\<close> bytes (whole floats, fewer than \<open>2^25\<close> bytes) every call returns,
  after \<open>N\<close> calls \<open>instance_count()\<close> is \<open>N\<close>, and
  \<open>capacity() \<ge> instance_count() * instance_size()\<close> holds after every call.
\<close>

lemma add_instances_from_empty:
  assumes "capacity this = 0" and "instance_count this = 0"
    and "0 < unat (instance_size this)" and "unat (instance_size this) < 2 ^ 25"
    and "4 dvd unat (instance_size this)"
    and "\<forall>r \<in> set rs. length r = unat (instance_size this)"
    and "length rs < 2 ^ 31" and "k \<le> length rs"
  shows "\<exists>g' this'. add_instances g this (take k rs) = Some (g', this') \<and>
           sint (instance_count this') = int k \<and> capacity_covers this' \<and>
           instance_size this' = instance_size this"
proof -
  have inv: "growth_inv this"
    using assms(1,2) by (simp add: growth_inv_def capacity_def instance_count_def)
  have rs: "\<forall>r \<in> set (take k rs). 4 dvd length r \<and> length r < 2 ^ 63"
  proof
    fix r assume "r \<in> set (take k rs)"
    then have "r \<in> set rs" by (rule in_set_takeD)
    with assms(6) have "length r = unat (instance_size this)" by blast
    with assms(4,5) show "4 dvd length r \<and> length r < 2 ^ 63" by simp
  qed
  have n: "sint (m_count this) + int (length (take k rs)) < 2 ^ 31"
    using assms(2,7,8) by (simp add: instance_count_def)
  from add_instances_growth_inv [OF inv assms(3,4) rs n, of g]
  obtain g' this' where 1: "add_instances g this (take k rs) = Some (g', this')"
    "growth_inv this'" "sint (m_count this') = sint (m_count this) + int (length (take k rs))"
    "m_layout this' = m_layout this"
    by blast
  have "sint (instance_count this') = int k"
    using 1(3) assms(2,8) by (simp add: instance_count_def)
  moreover have "capacity_covers this'" using 1(2) by (rule growth_inv_capacity_covers)
  moreover have "instance_size this' = instance_size this"
    by (simp add: instance_size_def 1(4))
  ultimately show ?thesis using 1(1) by blast
qed

lemma add_instances_three:
  "\<exists>g' this'. add_instances gl_one store_empty [r0, r1, r2] = Some (g', this') \<and>
     sint (instance_count this') = 3 \<and> capacity_covers this'"
proof -
  have s: "instance_size store_empty = 4"
    by (simp add: instance_size_def store_empty_def stride_layout_f32)
  have "\<exists>g' this'. add_instances gl_one store_empty (take 3 [r0, r1, r2]) = Some (g', this') \<and>
      sint (instance_count this') = int 3 \<and> capacity_covers this' \<and>
      instance_size this' = instance_size store_empty"
  proof (rule add_instances_from_empty)
    show "capacity store_empty = 0" "instance_count store_empty = 0"
      by (simp_all add: capacity_def instance_count_def store_empty_def)
    show "0 < unat (instance_size store_empty)" "unat (instance_size store_empty) < 2 ^ 25"
      "4 dvd unat (instance_size store_empty)"
      by (simp_all add: s)
    show "\<forall>r \<in> set [r0, r1, r2]. length r = unat (instance_size store_empty)"
      by (simp add: s r0_def r1_def r2_def)
    show "length [r0, r1, r2] < 2 ^ 31" "3 \<le> length [r0, r1, r2]" by simp_all
  qed
  then show ?thesis by auto
qed

section \<open>Scenarios\<close>

lemmas inst_defs = VertexBufferInst_ctor_def VertexBuffer_ctor_def add_instance_def
  update_instance_def resize_buffer_def delete_instance_def calc_capacity_def
  instance_size_def instance_count_def capacity_def store_bytes_def observe_def

lemma ctor_record20:
  "VertexBufferInst_ctor gl_init (client_span record20) layout_pos_uv =
     Some (gl_created, store_created)"
  by (simp add: VertexBufferInst_ctor_def VertexBuffer_ctor_def gl_defs gl_init_def
      gl_created_def store_created_def size_bytes_def client_span_def record20_def
      sizeof_float_def Let_def)

lemma mul_phi_5: "mul_phi_to_size_t 5 = Some 8"
proof -
  have b: "bit_length 36434886344034120 = Suc 55"
    by (rule bit_length_eq) simp_all
  show ?thesis
    by (simp add: mul_phi_to_size_t_def round53_def phi_significand_def b Let_def)
qed

lemma add_after_ctor_record20:
  "map_option observe (add_instance gl_created store_created (client_span record20)) =
     Some \<lparr>obs_capacity = 8, obs_count = 1, obs_stride = 20,
           obs_bytes = replicate 8 0\<rparr>"
  by (simp add: inst_defs gl_defs gl_init_def gl_created_def store_created_def size_bytes_def
      client_span_def record20_def sizeof_float_def Let_def stride_layout_pos_uv mul_phi_5
      INT32_MAX_def map_replicate_const)

lemma add_after_ctor_record20_covers:
  "map_option (\<lambda>(g, this). capacity_covers this)
     (add_instance gl_created store_created (client_span record20)) = Some False"
  by (simp add: inst_defs gl_defs gl_init_def gl_created_def store_created_def size_bytes_def
      client_span_def record20_def sizeof_float_def Let_def stride_layout_pos_uv mul_phi_5
      INT32_MAX_def map_replicate_const capacity_covers_def)

lemma ctor_empty_f32:
  "VertexBufferInst_ctor gl_init empty_span layout_f32 = Some (gl_one, store_empty)"
  by (simp add: VertexBufferInst_ctor_def VertexBuffer_ctor_def gl_defs gl_init_def
      gl_one_def store_empty_def size_bytes_def empty_span_def Let_def)

lemma span4:
  "size_bytes (client_span r0) = 4" "span_data (client_span r0) = Client r0"
  "size_bytes (client_span r1) = 4" "span_data (client_span r1) = Client r1"
  "size_bytes (client_span r2) = 4" "span_data (client_span r2) = Client r2"
  by (simp_all add: size_bytes_def client_span_def r0_def r1_def r2_def sizeof_float_def)

lemma add_r0:
  "add_instance gl_one store_empty (client_span r0) =
     Some (gl_init\<lparr>gen_names := [1],
             buffers := (\<lambda>_. None)(1 \<mapsto> \<lparr>data_store = r0, mapped_range = None\<rparr>),
             binding := (\<lambda>_. 0)(GL_ARRAY_BUFFER := 1, GL_COPY_WRITE_BUFFER := 1)\<rparr>,
           \<lparr>m_id = 1, m_layout = layout_f32, m_capacity = 4, m_count = 1\<rparr>)"
  apply (simp add: inst_defs gl_defs gl_init_def gl_one_def store_empty_def span4
      Let_def stride_layout_f32 INT32_MAX_def map_replicate_const)
  apply (auto simp add: fun_eq_iff r0_def)
  done

lemma resize_4_128:
  "resize_buffer
     (gl_init\<lparr>gen_names := [1],
        buffers := (\<lambda>_. None)(1 \<mapsto> \<lparr>data_store = r0, mapped_range = None\<rparr>),
        binding := (\<lambda>_. 0)(GL_ARRAY_BUFFER := 1, GL_COPY_WRITE_BUFFER := 1)\<rparr>)
     \<lparr>m_id = 1, m_layout = layout_f32, m_capacity = 4, m_count = 1\<rparr> 4 128 =
   Some (gl_init\<lparr>gen_names := [1],
           buffers := (\<lambda>_. None)
             (1 \<mapsto> \<lparr>data_store = r0 @ replicate 124 0, mapped_range = None\<rparr>),
           binding := (\<lambda>_. 0)(GL_ARRAY_BUFFER := 1, GL_COPY_WRITE_BUFFER := 1)\<rparr>)"
  apply (simp add: resize_buffer_def gl_defs gl_init_def
      Let_def stride_layout_f32 map_replicate_const r0_def)
  apply (auto simp add: fun_eq_iff)
  done

lemma update_r1:
  "update_instance
     (gl_init\<lparr>gen_names := [1],
           buffers := (\<lambda>_. None)
             (1 \<mapsto> \<lparr>data_store = r0 @ replicate 124 0, mapped_range = None\<rparr>),
           binding := (\<lambda>_. 0)(GL_ARRAY_BUFFER := 1, GL_COPY_WRITE_BUFFER := 1)\<rparr>)
     \<lparr>m_id = 1, m_layout = layout_f32, m_capacity = 128, m_count = 1\<rparr> 1 (client_span r1) =
   Some (gl_init\<lparr>gen_names := [1],
           buffers := (\<lambda>_. None)
             (1 \<mapsto> \<lparr>data_store = r0 @ r1 @ replicate 120 0, mapped_range = None\<rparr>),
           binding := (\<lambda>_. 0)(GL_ARRAY_BUFFER := 1, GL_COPY_WRITE_BUFFER := 1)\<rparr>)"
  apply (simp add: update_instance_def gl_defs gl_init_def span4 Let_def)
  apply (auto simp add: fun_eq_iff r0_def r1_def)
  done

lemma add_r1:
  "add_instance
     (gl_init\<lparr>gen_names := [1],
        buffers := (\<lambda>_. None)(1 \<mapsto> \<lparr>data_store = r0, mapped_range = None\<rparr>),
        binding := (\<lambda>_. 0)(GL_ARRAY_BUFFER := 1, GL_COPY_WRITE_BUFFER := 1)\<rparr>)
     \<lparr>m_id = 1, m_layout = layout_f32, m_capacity = 4, m_count = 1\<rparr> (client_span r1) =
   Some (gl_init\<lparr>gen_names := [1],
           buffers := (\<lambda>_. None)
             (1 \<mapsto> \<lparr>data_store = r0 @ r1 @ replicate 120 0, mapped_range = None\<rparr>),
           binding := (\<lambda>_. 0)(GL_ARRAY_BUFFER := 1, GL_COPY_WRITE_BUFFER := 1)\<rparr>,
         \<lparr>m_id = 1, m_layout = layout_f32, m_capacity = 128, m_count = 2\<rparr>)"
  by (simp add: add_instance_def INT32_MAX_def stride_layout_f32 calc_capacity_def
      instance_size_def resize_4_128 update_r1)

lemma add_r2:
  "add_instance
     (gl_init\<lparr>gen_names := [1],
        buffers := (\<lambda>_. None)
          (1 \<mapsto> \<lparr>data_store = r0 @ r1 @ replicate 120 0, mapped_range = None\<rparr>),
        binding := (\<lambda>_. 0)(GL_ARRAY_BUFFER := 1, GL_COPY_WRITE_BUFFER := 1)\<rparr>)
     \<lparr>m_id = 1, m_layout = layout_f32, m_capacity = 128, m_count = 2\<rparr> (client_span r2) =
   Some (gl_three, store_three)"
  apply (simp add: add_instance_def update_instance_def gl_defs gl_init_def span4 gl_three_def
      store_three_def Let_def stride_layout_f32 INT32_MAX_def)
  apply (auto simp add: fun_eq_iff r0_def r1_def r2_def)
  done

lemma three_records_eq: "three_records = Some (gl_three, store_three)"
  by (simp add: three_records_def ctor_empty_f32 add_r0 add_r1 add_r2)

lemma ctor_other:
  "VertexBufferInst_ctor gl_three (client_span other_data) layout_f32 =
     Some (gl_three_other, store_other)"
  apply (simp add: VertexBufferInst_ctor_def VertexBuffer_ctor_def gl_defs gl_init_def
      gl_three_def gl_three_other_def store_other_def size_bytes_def client_span_def
      other_data_def sizeof_float_def Let_def)
  apply (auto simp add: fun_eq_iff)
  done

lemma delete_three_other_0:
  "map_option observe_deleted (delete_instance gl_three_other store_three 0) =
     Some (\<lparr>obs_capacity = 128, obs_count = 2, obs_stride = 4,
            obs_bytes = [29, 30, 31, 32] @ r1 @ r2 @ replicate 116 0\<rparr>,
           0, [GL_INVALID_OPERATION])"
  by (simp add: delete_instance_def update_instance_def gl_defs gl_init_def gl_three_other_def
      store_three_def Let_def stride_layout_f32 size_bytes_def sizeof_float_def
      observe_deleted_def observe_def capacity_def instance_count_def instance_size_def
      store_bytes_def r0_def r1_def r2_def other_data_def)

lemma delete_three_0:
  "map_option observe_deleted (delete_instance gl_three store_three 0) =
     Some (\<lparr>obs_capacity = 128, obs_count = 2, obs_stride = 4,
            obs_bytes = r2 @ r1 @ r2 @ replicate 116 0\<rparr>, 0, [])"
  by (simp add: delete_instance_def update_instance_def gl_defs gl_init_def gl_three_def
      store_three_def Let_def stride_layout_f32 size_bytes_def sizeof_float_def
      observe_deleted_def observe_def capacity_def instance_count_def instance_size_def
      store_bytes_def r0_def r1_def r2_def)

lemma delete_three_2:
  "map_option observe_deleted (delete_instance gl_three store_three 2) =
     Some (\<lparr>obs_capacity = 128, obs_count = 2, obs_stride = 4,
            obs_bytes = r0 @ r1 @ r2 @ replicate 116 0\<rparr>, 2, [GL_INVALID_OPERATION])"
  by (simp add: delete_instance_def update_instance_def gl_defs gl_init_def gl_three_def
      store_three_def Let_def stride_layout_f32 size_bytes_def sizeof_float_def
      observe_deleted_def observe_def capacity_def instance_count_def instance_size_def
      store_bytes_def r0_def r1_def r2_def)

lemma delete_three_unbound_2: "delete_instance (unbind gl_three) store_three 2 = None"
  by (simp add: delete_instance_def update_instance_def unbind_def gl_defs gl_init_def gl_three_def
      store_three_def Let_def stride_layout_f32 size_bytes_def sizeof_float_def)

section \<open>Deleting a record\<close>

lemma sint_pred: "0 < sint (c :: 32 word) \<Longrightarrow> sint (c - 1) = sint c - 1"
proof -
  assume p: "0 < sint c"
  have lt: "sint c < 2 ^ 31" using sint_lt [of c] by simp
  have "sint (word_of_int (sint c - 1) :: 32 word) = signed_take_bit 31 (sint c - 1)"
    by (simp only: sint_sbintrunc') simp
  also have "\<dots> = sint c - 1"
    using p lt by (intro signed_take_bit_int_eq_self) simp_all
  finally show ?thesis by simp
qed
lemma uint_ucast_32: "unat (s :: 64 word) < 2 ^ 32 \<Longrightarrow> uint (ucast s :: 32 word) = int (unat s)"
proof -
  assume "unat s < 2 ^ 32"
  then have "int (unat s) < int (2 ^ 32)" by (simp only: of_nat_less_iff)
  moreover have u: "uint s = int (unat s)" by (rule uint_nat)
  ultimately have "uint s < int (2 ^ 32)" by (simp only:)
  then have "uint s < 2 ^ 32" by simp
  then have "take_bit 32 (uint s) = uint s"
    by (intro take_bit_int_eq_self) simp_all
  moreover have "uint (ucast s :: 32 word) = take_bit 32 (uint s)"
    by (simp add: unsigned_ucast_eq)
  ultimately show ?thesis by (simp only: u)
qed
lemma div4_mult4: "4 dvd unat (w :: 64 word) \<Longrightarrow> word_of_nat (unat (w div 4)) * 4 = w"
proof -
  assume "4 dvd unat w"
  then obtain k where k: "unat w = 4 * k" ..
  have "unat (w div 4) = unat w div 4" by (simp add: unat_div_distrib)
  then have "unat (w div 4) = k" using k by simp
  then have "(word_of_nat (unat (w div 4)) * 4 :: 64 word) = word_of_nat (4 * k)" by simp
  also have "\<dots> = w" using k [symmetric] by simp
  finally show ?thesis .
qed


lemma span_of_stride:
  assumes "4 dvd unat (stride l)"
  shows "size_bytes \<lparr>span_data = p, span_size = unat (stride_elements l)\<rparr> = stride l"
  using div4_mult4 [OF assms]
  by (simp add: size_bytes_def stride_elements_def stride_def sizeof_float_def)

lemma glMapBufferRange_ok:
  assumes "binding g t = b" and "b \<noteq> 0" and "buffers g b = Some bo"
    and "mapped_range bo = None" and "0 < n" and "off + n \<le> length (data_store bo)"
  shows "glMapBufferRange g t (int off) (int n) =
     (Mapped b off, g\<lparr>buffers := (buffers g)(b \<mapsto> bo\<lparr>mapped_range := Some (off, n)\<rparr>)\<rparr>)"
  using assms by (simp add: glMapBufferRange_def)

lemma glBufferSubData_mapped:
  assumes "binding g t = b" and "b \<noteq> 0" and "buffers g b = Some bo"
    and "range_mapped bo off n" and "off + n \<le> length (data_store bo)"
  shows "glBufferSubData g t (int off) (int n) p = Some (raise GL_INVALID_OPERATION g)"
  using assms by (simp add: glBufferSubData_def)

lemma glUnmapBuffer_ok:
  assumes "binding g t = b" and "b \<noteq> 0" and "buffers g b = Some bo"
    and "mapped_range bo = Some r"
  shows "glUnmapBuffer g t = g\<lparr>buffers := (buffers g)(b \<mapsto> bo\<lparr>mapped_range := None\<rparr>)\<rparr>"
  using assms by (simp add: glUnmapBuffer_def)

text \<open>
  What \<open>delete_instance\<close> does when the buffer of the store is the one bound to
  \<^verbatim>\<open>GL_ARRAY_BUFFER\<close>: the last record lands in slot \<open>index\<close>. For the last slot
  itself the write is refused, because its range is the mapped one, and the data store
  stays as it is.
\<close>

lemma delete_instance_bound:
  assumes ok: "store_ok g this" and bound: "binding g GL_ARRAY_BUFFER = m_id this"
    and i0: "0 \<le> sint index" and ic: "sint index < sint (m_count this)"
    and st0: "0 < unat (instance_size this)" and st4: "4 dvd unat (instance_size this)"
    and st32: "unat (instance_size this) < 2 ^ 32"
  shows "\<exists>g'. delete_instance g this index =
             Some (g', this\<lparr>m_count := m_count this - 1\<rparr>, index) \<and>
           store_bytes g' this =
             take (nat (sint index) * unat (instance_size this)) (store_bytes g this) @
             slot (unat (instance_size this)) (store_bytes g this) (nat (sint (m_count this)) - 1) @
             drop (nat (sint index) * unat (instance_size this) + unat (instance_size this))
               (store_bytes g this) \<and>
           sint (m_count this - 1) = sint (m_count this) - 1"
proof -
  let ?i = "nat (sint index)" and ?c = "nat (sint (m_count this))"
  let ?st = "unat (instance_size this)" and ?id = "m_id this"
  let ?l = "?c - 1"
  define N where "N = ?st"
  define I where "I = ?i * ?st"
  define L where "L = ?l * ?st"
  from ok obtain bo where bo: "buffers g ?id = Some bo"
    and id0: "?id \<noteq> 0" and gen: "?id \<in> set (gen_names g)"
    and um: "mapped_range bo = None"
    and fit: "?c * ?st \<le> length (data_store bo)"
    and small: "length (data_store bo) < 2 ^ 63"
    by (auto simp: store_ok_def split: option.splits)
  let ?old = "data_store bo"
  have strd: "stride (m_layout this) = word_of_nat ?st"
    by (simp add: instance_size_def)
  have cpos: "0 < sint (m_count this)" using i0 ic by simp
  have cm: "sint (m_count this - 1) = sint (m_count this) - 1"
    using cpos by (rule sint_pred)
  then have cl: "nat (sint (m_count this - 1)) = ?l" "0 \<le> sint (m_count this - 1)"
    using cpos by simp_all
  have il: "?i \<le> ?l" using i0 ic by simp
  have "0 < ?c" using cpos by simp
  then obtain k where k: "?c = Suc k" by (cases ?c) auto
  have lst: "?l * ?st + ?st = ?c * ?st"
    by (simp add: k)
  have lfit: "L + N \<le> length ?old" using lst fit by (simp add: L_def N_def)
  have ifit: "I + N \<le> length ?old"
  proof -
    have "Suc ?i * ?st \<le> ?c * ?st" using i0 ic by (intro mult_le_mono1) simp
    with fit show ?thesis by (simp add: I_def N_def)
  qed
  have N0: "0 < N" using st0 by (simp add: N_def)
  have moff: "sint (scast (m_count this - 1) * stride (m_layout this) :: size_t) = int L"
  proof -
    have "(nat (sint (m_count this - 1)) + 1) * ?st < 2 ^ 63"
      using lst fit small cl(1) by (simp add: algebra_simps)
    from slot_offset_sint [OF cl(2) this] show ?thesis by (simp only: strd cl(1) L_def)
  qed
  have ioff: "sint (scast index * stride (m_layout this) :: size_t) = int I"
  proof -
    have "(?i + 1) * ?st < 2 ^ 63" using ifit small by (simp add: algebra_simps I_def N_def)
    from slot_offset_sint [OF i0 this] show ?thesis by (simp only: strd I_def)
  qed
  have mlen: "uint (ucast (stride (m_layout this)) :: uint32) = int N"
    using uint_ucast_32 [of "stride (m_layout this)"] st32
    by (simp only: instance_size_def N_def)
  have "?st < 2 ^ 63" using ifit small by (simp add: N_def)
  then have isz: "sint (stride (m_layout this)) = int N"
    by (simp only: strd sint_of_nat_64 N_def)
  have sb: "size_bytes \<lparr>span_data = p, span_size = unat (stride_elements (m_layout this))\<rparr> =
      stride (m_layout this)" for p
    using st4 by (intro span_of_stride) (simp add: instance_size_def)
  let ?bo1 = "bo\<lparr>mapped_range := Some (L, N)\<rparr>"
  let ?g1 = "g\<lparr>buffers := (buffers g)(?id \<mapsto> ?bo1)\<rparr>"
  have map: "glMapBufferRange g GL_ARRAY_BUFFER (int L) (int N) = (Mapped ?id L, ?g1)"
    using bound id0 bo um N0 lfit by (rule glMapBufferRange_ok)
  have b1: "binding ?g1 GL_ARRAY_BUFFER = ?id" using bound by simp
  have bo1: "buffers ?g1 ?id = Some ?bo1" by simp
  have "(binding g)(GL_ARRAY_BUFFER := ?id) = binding g"
    using bound by (simp add: fun_upd_idem_iff)
  then have bind1: "glBindBuffer ?g1 GL_ARRAY_BUFFER ?id = ?g1"
    using id0 gen by (simp add: glBindBuffer_def)
  let ?last = "\<lparr>span_data = Mapped ?id L,
               span_size = unat (stride_elements (m_layout this))\<rparr>"
  have upd: "update_instance ?g1 this index ?last =
      glBufferSubData ?g1 GL_ARRAY_BUFFER (int I) (int N) (Mapped ?id L)"
    by (simp only: update_instance_def Let_def bind1 sb ioff isz span.simps)
  have guard: "\<not> (sint (m_count this) \<le> sint index \<or> sint index < 0)"
    using i0 ic by simp
  have del: "delete_instance g this index =
      do {
        g2 \<leftarrow> glBufferSubData ?g1 GL_ARRAY_BUFFER (int I) (int N) (Mapped ?id L);
        Some (glUnmapBuffer g2 GL_ARRAY_BUFFER, this\<lparr>m_count := m_count this - 1\<rparr>, index)
      }"
    by (simp only: delete_instance_def guard if_False moff mlen map Let_def prod.case upd)
  have sl: "slot ?st (store_bytes g this) ?l = take N (drop L ?old)"
    using bo by (simp add: slot_def store_bytes_def L_def N_def)
  have goal: "take I ?old @ take N (drop L ?old) @ drop (I + N) ?old = new \<Longrightarrow>
      delete_instance g this index = Some (g', this\<lparr>m_count := m_count this - 1\<rparr>, index) \<Longrightarrow>
      store_bytes g' this = new \<Longrightarrow> ?thesis" for new g'
    using bo by (auto simp add: slot_def cm store_bytes_def I_def N_def L_def)
  show ?thesis
  proof (cases "?i = ?l")
    case True
    then have IL: "I = L" by (simp add: I_def L_def)
    have "range_mapped ?bo1 I N"
      using N0 by (simp add: range_mapped_def IL)
    with b1 id0 bo1 have w: "glBufferSubData ?g1 GL_ARRAY_BUFFER (int I) (int N)
        (Mapped ?id L) = Some (raise GL_INVALID_OPERATION ?g1)"
      by (rule glBufferSubData_mapped) (use ifit in simp)
    let ?g2 = "raise GL_INVALID_OPERATION ?g1"
    have un: "glUnmapBuffer ?g2 GL_ARRAY_BUFFER =
        ?g2\<lparr>buffers := (buffers ?g2)(?id \<mapsto> ?bo1\<lparr>mapped_range := None\<rparr>)\<rparr>"
      by (rule glUnmapBuffer_ok [where r = "(L, N)"]) (use bound id0 in \<open>simp_all add: raise_def\<close>)
    have same: "take I ?old @ take N (drop L ?old) @ drop (I + N) ?old = ?old"
      unfolding IL by (metis append_take_drop_id drop_drop add.commute)
    show ?thesis
    proof (rule goal [OF same])
      show "delete_instance g this index =
          Some (glUnmapBuffer ?g2 GL_ARRAY_BUFFER, this\<lparr>m_count := m_count this - 1\<rparr>, index)"
        by (simp add: del w)
      show "store_bytes (glUnmapBuffer ?g2 GL_ARRAY_BUFFER) this = ?old"
        by (simp only: un) (simp add: store_bytes_def raise_def)
    qed
  next
    case False
    with il have lt: "?i < ?l" by simp
    then have "Suc ?i * ?st \<le> ?l * ?st" by (intro mult_le_mono1) simp
    then have "I + N \<le> L" by (simp add: I_def L_def N_def)
    then have nm: "\<not> range_mapped ?bo1 I N"
      by (simp add: range_mapped_def)
    have rd: "read_ptr ?g1 (Mapped ?id L) N = Some (take N (drop L ?old))"
      using N0 by (simp add: read_ptr_def)
    let ?new = "take I ?old @ take N (drop L ?old) @ drop (I + N) ?old"
    let ?g2 = "?g1\<lparr>buffers := (buffers ?g1)(?id \<mapsto> ?bo1\<lparr>data_store := ?new\<rparr>)\<rparr>"
    have w: "glBufferSubData ?g1 GL_ARRAY_BUFFER (int I) (int N) (Mapped ?id L) = Some ?g2"
    proof -
      have "glBufferSubData ?g1 GL_ARRAY_BUFFER (int I) (int N) (Mapped ?id L) =
          Some (?g1\<lparr>buffers := (buffers ?g1)(?id \<mapsto>
            ?bo1\<lparr>data_store := take I (data_store ?bo1) @ take N (drop L ?old) @
                     drop (I + N) (data_store ?bo1)\<rparr>)\<rparr>)"
        using b1 id0 bo1 nm _ rd by (rule glBufferSubData_write) (use ifit in simp)
      then show ?thesis by simp
    qed
    have un: "glUnmapBuffer ?g2 GL_ARRAY_BUFFER =
        ?g2\<lparr>buffers := (buffers ?g2)(?id \<mapsto> (?bo1\<lparr>data_store := ?new\<rparr>)\<lparr>mapped_range := None\<rparr>)\<rparr>"
      by (rule glUnmapBuffer_ok [where r = "(L, N)"]) (use bound id0 in simp_all)
    show ?thesis
    proof (rule goal [OF refl])
      show "delete_instance g this index =
          Some (glUnmapBuffer ?g2 GL_ARRAY_BUFFER, this\<lparr>m_count := m_count this - 1\<rparr>, index)"
        by (simp add: del w)
      show "store_bytes (glUnmapBuffer ?g2 GL_ARRAY_BUFFER) this = ?new"
        by (simp only: un) (simp add: store_bytes_def)
    qed
  qed
qed

lemma delete_three_other_2:
  "map_option observe_deleted (delete_instance gl_three_other store_three 2) =
     Some (\<lparr>obs_capacity = 128, obs_count = 2, obs_stride = 4,
            obs_bytes = r0 @ r1 @ [29, 30, 31, 32] @ replicate 116 0\<rparr>,
           2, [GL_INVALID_OPERATION])"
  by (simp add: delete_instance_def update_instance_def gl_defs gl_init_def gl_three_other_def
      store_three_def Let_def stride_layout_f32 size_bytes_def sizeof_float_def
      observe_deleted_def observe_def capacity_def instance_count_def instance_size_def
      store_bytes_def r0_def r1_def r2_def other_data_def)

text \<open>
  C2. When the buffer of the store is the one bound to \<^verbatim>\<open>GL_ARRAY_BUFFER\<close>, the
  function does what the claim says (\<open>delete_instance_bound\<close>). But \<open>delete_instance\<close>
  maps \<^verbatim>\<open>GL_ARRAY_BUFFER\<close> without binding the buffer of the store first, which
  \<open>update_instance\<close> and \<open>resize_buffer\<close> do. A client creates a store for records of
  one float and adds \<open>r0\<close>, \<open>r1\<close>, \<open>r2\<close>; when it deletes record 0 at once, slot 0
  holds the bytes of \<open>r2\<close>. When it first creates a second buffer, whose constructor
  leaves that buffer bound, \<open>delete_instance(0)\<close> on the first store returns 0 with
  count 2, but slot 0 holds bytes 8 to 11 of the second buffer, not the bytes of
  \<open>r2\<close>; the second buffer stays mapped and an error is raised.
\<close>

theorem delete_instance_after_other_buffer:
  "three_records = Some (gl_three, store_three) \<and>
   map_option observe_deleted (delete_at_once 0) =
     Some (\<lparr>obs_capacity = 128, obs_count = 2, obs_stride = 4,
            obs_bytes = r2 @ r1 @ r2 @ replicate 116 0\<rparr>, 0, []) \<and>
   VertexBufferInst_ctor gl_three (client_span other_data) layout_f32 =
     Some (gl_three_other, store_other) \<and>
   map_option observe_deleted (delete_after_other_buffer 0) =
     Some (\<lparr>obs_capacity = 128, obs_count = 2, obs_stride = 4,
            obs_bytes = [29, 30, 31, 32] @ r1 @ r2 @ replicate 116 0\<rparr>,
           0, [GL_INVALID_OPERATION]) \<and>
   r2 = [9, 10, 11, 12]"
  by (simp add: three_records_eq ctor_other delete_at_once_def delete_after_other_buffer_def
      delete_three_0 delete_three_other_0)
    (simp add: r2_def)

text \<open>
  C10. With the buffer of the store bound, deleting the last record leaves the whole
  data store as it is, decrements the count and returns the index
  (\<open>delete_instance_bound\<close>; the write onto the mapped range is refused with an error,
  which leaves the bytes in place). The same missing bind as in C2 breaks the claim
  elsewhere: after \<^verbatim>\<open>VertexBuffer::unbind()\<close> the mapping fails, the function builds
  a span over the null pointer it got and \<open>update_instance\<close> reads a record through it,
  which is undefined behaviour; and with a second buffer bound, the last slot receives
  bytes of that buffer instead of its own.
\<close>

theorem delete_last_instance_unbound:
  "three_records = Some (gl_three, store_three) \<and>
   instance_count store_three - 1 = 2 \<and>
   map_option observe_deleted (delete_at_once 2) =
     Some (\<lparr>obs_capacity = 128, obs_count = 2, obs_stride = 4,
            obs_bytes = r0 @ r1 @ r2 @ replicate 116 0\<rparr>, 2, [GL_INVALID_OPERATION]) \<and>
   delete_after_unbind 2 = None \<and>
   map_option observe_deleted (delete_after_other_buffer 2) =
     Some (\<lparr>obs_capacity = 128, obs_count = 2, obs_stride = 4,
            obs_bytes = r0 @ r1 @ [29, 30, 31, 32] @ replicate 116 0\<rparr>,
           2, [GL_INVALID_OPERATION])"
  by (simp add: three_records_eq ctor_other delete_at_once_def delete_after_other_buffer_def
      delete_after_unbind_def delete_three_2 delete_three_other_2 delete_three_unbound_2)
    (simp add: instance_count_def store_three_def)

text \<open>
  C3. The claim: after \<open>N\<close> calls of \<open>add_instance\<close> with records of
  \<open>instance_size()\<close> bytes the count is \<open>N\<close> more than before, and
  \<open>capacity() \<ge> instance_count() * instance_size()\<close> holds after every operation.
  The constructor sets \<^verbatim>\<open>capacity_\<close> to the number of floats of the initial data,
  although the member holds a number of bytes, and leaves \<^verbatim>\<open>count_\<close> at 0. A store
  created with one record of 20 bytes (5 floats) has capacity 5; the first
  \<open>add_instance\<close> of a record of 20 bytes finds \<open>1 * 20 > 5\<close>, grows to
  \<open>calc_capacity(5) = 8\<close>, shrinks the buffer of 20 bytes to 8 bytes, and appends with
  a write that is refused. Afterwards the count is 1, as the claim says, but the
  capacity is 8, less than \<open>1 * 20\<close>. For a store created without initial data the
  count and the invariant are as claimed (lemma \<open>add_instances_from_empty\<close>).
\<close>

theorem add_instance_after_create_with_data:
  "VertexBufferInst_ctor gl_init (client_span record20) layout_pos_uv =
     Some (gl_created, store_created) \<and>
   observe (gl_created, store_created) =
     \<lparr>obs_capacity = 5, obs_count = 0, obs_stride = 20, obs_bytes = record20\<rparr> \<and>
   map_option observe (add_instance gl_created store_created (client_span record20)) =
     Some \<lparr>obs_capacity = 8, obs_count = 1, obs_stride = 20, obs_bytes = replicate 8 0\<rparr> \<and>
   map_option (\<lambda>(g, this). capacity_covers this)
     (add_instance gl_created store_created (client_span record20)) = Some False"
  by (simp add: ctor_record20 add_after_ctor_record20 add_after_ctor_record20_covers)
    (simp add: observe_def capacity_def instance_count_def instance_size_def store_bytes_def
      gl_created_def store_created_def stride_layout_pos_uv)

lemma update_after_create_record20:
  "update_after_create_with_data 0 record20_alt =
     Some (\<lparr>obs_capacity = 8, obs_count = 1, obs_stride = 20, obs_bytes = replicate 8 0\<rparr>,
           [GL_INVALID_VALUE, GL_INVALID_VALUE])"
  by (simp add: update_after_create_with_data_def ctor_record20)
    (simp add: inst_defs gl_defs gl_init_def gl_created_def store_created_def size_bytes_def
      client_span_def record20_def record20_alt_def sizeof_float_def Let_def stride_layout_pos_uv
      mul_phi_5 INT32_MAX_def map_replicate_const)

text \<open>
  C6. The claim: for every store, every \<open>i < count\<close> and every record of
  \<open>instance_size()\<close> bytes, \<open>update_instance(i, bytes)\<close> followed by reading back slot
  \<open>i\<close> gives exactly \<open>bytes\<close>. A store created with one record of 20 bytes as
  initial data, to which one record has been added, has count 1 and a buffer of 8
  bytes: the constructor has set \<^verbatim>\<open>capacity_\<close> to the number of floats, and the growth
  step has shrunk the buffer. There \<open>update_instance(0, bytes)\<close> with a record of 20
  bytes is refused (\<^verbatim>\<open>GL_INVALID_VALUE\<close>): the buffer keeps its 8 bytes, and slot 0
  reads back those 8 bytes and not the 20 bytes of the record. On a store whose buffer
  holds its records the round trip is as claimed (\<open>update_instance_round_trip\<close>
  above).
\<close>

theorem update_instance_after_create_with_data:
  "update_after_create_with_data 0 record20_alt =
     Some (\<lparr>obs_capacity = 8, obs_count = 1, obs_stride = 20, obs_bytes = replicate 8 0\<rparr>,
           [GL_INVALID_VALUE, GL_INVALID_VALUE]) \<and>
   length record20_alt = 20 \<and>
   slot 20 (replicate 8 0) 0 = replicate 8 (0 :: byte) \<and>
   slot 20 (replicate 8 0) 0 \<noteq> record20_alt"
proof -
  have l: "length record20_alt = 20" by (simp add: record20_alt_def)
  have s: "slot 20 (replicate 8 0) 0 = replicate 8 (0 :: byte)" by (simp add: slot_def)
  have "replicate 8 (0 :: byte) \<noteq> record20_alt"
  proof
    assume "replicate 8 (0 :: byte) = record20_alt"
    then have "length (replicate 8 (0 :: byte)) = length record20_alt" by (rule arg_cong)
    then show False by (simp add: l)
  qed
  with l s show ?thesis by (simp add: update_after_create_record20)
qed

text \<open>
  On the store that was created without initial data and holds \<open>r0\<close>, \<open>r1\<close> and
  \<open>r2\<close>, the update of record 1 lands in slot 1 and raises no error.
\<close>

lemma update_after_three_records_1:
  "update_after_three_records 1 [7, 7, 7, 7] =
     Some (\<lparr>obs_capacity = 128, obs_count = 3, obs_stride = 4,
            obs_bytes = r0 @ [7, 7, 7, 7] @ r2 @ replicate 116 0\<rparr>, [])"
  by (simp add: update_after_three_records_def three_records_eq)
    (simp add: inst_defs gl_defs gl_init_def gl_three_def store_three_def size_bytes_def
      client_span_def sizeof_float_def Let_def stride_layout_f32 r0_def r1_def r2_def)


end
